theory Spec2Isabelle
  imports Complex_Main "HOL-Library.Log_Nat"
begin

section \<open>Strings\<close>

text \<open>
  Python \<open>str\<close> values are modelled as \<open>string\<close>: a list of 8-bit characters, each read
  as the code point of the same number (0 to 255). In that range the decimal digits
  matched by \<open>\d\<close> are \<open>0\<close> to \<open>9\<close>, and the characters removed by \<open>str.strip()\<close>
  are the twelve listed in \<open>is_space\<close>.
\<close>

datatype error =
  ValueError | AttributeError | KeyError | IndexError | TypeError | ZeroDivisionError
  | IndentationError | OtherError string

definition is_space :: "char \<Rightarrow> bool" where
  "is_space c = ((of_char c :: nat) \<in> {9, 10, 11, 12, 13, 28, 29, 30, 31, 32, 133, 160})"

definition is_digit :: "char \<Rightarrow> bool" where
  "is_digit c = (48 \<le> (of_char c :: nat) \<and> (of_char c :: nat) \<le> 57)"

definition digit_val :: "char \<Rightarrow> nat" where
  "digit_val c = (of_char c :: nat) - 48"

definition strip :: "string \<Rightarrow> string" where
  "strip s = rev (dropWhile is_space (rev (dropWhile is_space s)))"

text \<open>\<open>s.split(sep)\<close> for a separator of one character: always at least one part.\<close>

fun split_on :: "char \<Rightarrow> string \<Rightarrow> string list" where
  "split_on sep [] = [[]]"
| "split_on sep (c # cs) =
     (if c = sep then [] # split_on sep cs
      else (case split_on sep cs of
              [] \<Rightarrow> [[c]]
            | p # ps \<Rightarrow> (c # p) # ps))"

text \<open>
  \<open>int(s)\<close> on a string: surrounding whitespace is dropped, one sign is allowed, and
  the digits may be grouped by single underscores; anything else is a ValueError.
\<close>

fun int_body :: "string \<Rightarrow> bool" where
  "int_body [] = False"
| "int_body [c] = is_digit c"
| "int_body (c # d # cs) =
     (is_digit c \<and> (if d = CHR ''_'' then int_body cs else int_body (d # cs)))"

definition dec_val :: "string \<Rightarrow> nat" where
  "dec_val s = foldl (\<lambda>a c. 10 * a + digit_val c) 0 (filter is_digit s)"

definition py_int :: "string \<Rightarrow> error + int" where
  "py_int s =
     (case strip s of
        [] \<Rightarrow> Inl ValueError
      | c # cs \<Rightarrow>
          if c = CHR ''-'' then (if int_body cs then Inr (- int (dec_val cs)) else Inl ValueError)
          else if c = CHR ''+'' then (if int_body cs then Inr (int (dec_val cs)) else Inl ValueError)
          else if int_body (c # cs) then Inr (int (dec_val (c # cs)))
          else Inl ValueError)"

text \<open>\<open>map(int, parts)\<close>, consumed in order: the first failure is the one raised.\<close>

fun map_int :: "string list \<Rightarrow> error + int list" where
  "map_int [] = Inr []"
| "map_int (p # ps) =
     (case py_int p of
        Inl e \<Rightarrow> Inl e
      | Inr n \<Rightarrow> (case map_int ps of Inl e \<Rightarrow> Inl e | Inr ns \<Rightarrow> Inr (n # ns)))"

text \<open>
  The regular expressions of the source only use \<open>\d\<close> and literal characters, each
  matching exactly one character, so \<open>re.fullmatch\<close> is a pointwise comparison.
\<close>

datatype pat = D | L char

fun pat_ok :: "pat \<Rightarrow> char \<Rightarrow> bool" where
  "pat_ok D c = is_digit c"
| "pat_ok (L x) c = (c = x)"

definition fullmatch :: "pat list \<Rightarrow> string \<Rightarrow> bool" where
  "fullmatch p s = list_all2 pat_ok p s"

section \<open>Input validators\<close>

subsection \<open>Time\<close>

definition time_pattern :: "pat list" where
  "time_pattern = [D, D, L (CHR '':''), D, D]"

definition parse_time :: "string \<Rightarrow> error + (int \<times> int) option" where
  "parse_time s0 =
     (let s = strip s0 in
      if fullmatch time_pattern s then
        (case map_int (split_on (CHR '':'') s) of
           Inl e \<Rightarrow> Inl e
         | Inr [h, m] \<Rightarrow>
             if 0 \<le> h \<and> h \<le> 23 \<and> 0 \<le> m \<and> m \<le> 59 then Inr (Some (h, m)) else Inr None
         | Inr _ \<Rightarrow> Inl ValueError)
      else Inr None)"

text \<open>
  The specification's reading of the time parser: the string itself is two digits, a
  colon and two digits, with the hour at most 23 and the minute at most 59.
\<close>

fun spec_time :: "string \<Rightarrow> (int \<times> int) option" where
  "spec_time [a, b, c, d, e] =
     (if is_digit a \<and> is_digit b \<and> c = CHR '':'' \<and> is_digit d \<and> is_digit e
         \<and> 10 * digit_val a + digit_val b \<le> 23 \<and> 10 * digit_val d + digit_val e \<le> 59
      then Some (int (10 * digit_val a + digit_val b), int (10 * digit_val d + digit_val e))
      else None)"
| "spec_time _ = None"

subsection \<open>Date\<close>

record pydate =
  year :: int
  month :: int
  day :: int

definition is_leap :: "int \<Rightarrow> bool" where
  "is_leap y = (y mod 4 = 0 \<and> (y mod 100 \<noteq> 0 \<or> y mod 400 = 0))"

definition days_in_month :: "int \<Rightarrow> int \<Rightarrow> int" where
  "days_in_month y m =
     (if m = 2 then (if is_leap y then 29 else 28)
      else if m \<in> {4, 6, 9, 11} then 30 else 31)"

text \<open>What \<open>datetime.date(y, m, d)\<close> accepts.\<close>

definition valid_date :: "pydate \<Rightarrow> bool" where
  "valid_date dt =
     (1 \<le> year dt \<and> year dt \<le> 9999 \<and> 1 \<le> month dt \<and> month dt \<le> 12
      \<and> 1 \<le> day dt \<and> day dt \<le> days_in_month (year dt) (month dt))"

text \<open>
  \<open>datetime.strptime(s, fmt).date()\<close> of the standard library, on three fields already
  cut out of a string that matched the caller's pattern (four digits for the year, two
  for the month, two for the day). The format's own pattern wants a month from 01 to 12
  and a day from 01 to 31 and raises ValueError otherwise; building the date raises
  ValueError for year 0 and for a day the month does not have.
\<close>

definition strptime_fields :: "string \<Rightarrow> string \<Rightarrow> string \<Rightarrow> error + pydate" where
  "strptime_fields ys ms ds =
     (let y = int (dec_val ys); m = int (dec_val ms); d = int (dec_val ds) in
      if \<not> (1 \<le> m \<and> m \<le> 12 \<and> 1 \<le> d \<and> d \<le> 31) then Inl ValueError
      else if valid_date \<lparr>year = y, month = m, day = d\<rparr>
        then Inr \<lparr>year = y, month = m, day = d\<rparr>
      else Inl ValueError)"

definition ymd_pattern :: "pat list" where
  "ymd_pattern = [D, D, D, D, L (CHR ''-''), D, D, L (CHR ''-''), D, D]"

definition dmy_pattern :: "pat list" where
  "dmy_pattern = [D, D, L (CHR ''.''), D, D, L (CHR ''.''), D, D, D, D]"

definition parse_date :: "string \<Rightarrow> error + pydate option" where
  "parse_date s0 =
     (let s = strip s0 in
      if fullmatch ymd_pattern s then
        (case strptime_fields (take 4 s) (take 2 (drop 5 s)) (take 2 (drop 8 s)) of
           Inl e \<Rightarrow> Inl e
         | Inr dt \<Rightarrow> Inr (Some dt))
      else if fullmatch dmy_pattern s then
        (case strptime_fields (take 4 (drop 6 s)) (take 2 (drop 3 s)) (take 2 s) of
           Inl e \<Rightarrow> Inl e
         | Inr dt \<Rightarrow> Inr (Some dt))
      else Inr None)"

section \<open>Formatting\<close>

definition digit_char :: "nat \<Rightarrow> char" where
  "digit_char n = char_of (48 + n mod 10)"

fun dec :: "nat \<Rightarrow> string" where
  "dec n = (if n < 10 then [digit_char n] else dec (n div 10) @ [digit_char (n mod 10)])"

declare dec.simps [simp del]

text \<open>\<open>%0wd\<close> for a number that is not negative.\<close>

definition zpad :: "nat \<Rightarrow> nat \<Rightarrow> string" where
  "zpad w n = replicate (w - length (dec n)) (CHR ''0'') @ dec n"

text \<open>\<open>sep.join(parts)\<close>\<close>

fun join :: "string \<Rightarrow> string list \<Rightarrow> string" where
  "join sep [] = []"
| "join sep [p] = p"
| "join sep (p # q # ps) = p @ sep @ join sep (q # ps)"

definition isoformat :: "pydate \<Rightarrow> string" where
  "isoformat dt =
     zpad 4 (nat (year dt)) @ ''-'' @ zpad 2 (nat (month dt)) @ ''-'' @ zpad 2 (nat (day dt))"

section \<open>Floating point\<close>

text \<open>
  A Python \<open>float\<close> is an IEEE 754 double. Its finite values are modelled as the
  rationals they denote; every arithmetic operation computes the exact result and rounds
  it to 53 significant bits, to nearest with ties to even (\<open>fl\<close>). Infinities, NaN,
  the sign of zero and the limits of the exponent are outside the model: none of the
  operations below, on finite arguments, produces a result that would overflow, and the
  only results in the subnormal range are exact.
\<close>

type_synonym pyfloat = rat

definition pow2 :: "int \<Rightarrow> rat" where
  "pow2 e = (if 0 \<le> e then 2 ^ nat e else 1 / 2 ^ nat (- e))"

text \<open>The exponent of the leading bit of a positive rational.\<close>

definition ilog2 :: "rat \<Rightarrow> int" where
  "ilog2 x = (if 1 \<le> x then bitlen \<lfloor>x\<rfloor> - 1 else - bitlen (\<lceil>1 / x\<rceil> - 1))"

definition round_half_even :: "rat \<Rightarrow> int" where
  "round_half_even x =
     (let f = \<lfloor>x\<rfloor>; r = x - of_int f in
      if r < 1 / 2 then f else if 1 / 2 < r then f + 1 else if even f then f else f + 1)"

definition fl :: "rat \<Rightarrow> pyfloat" where
  "fl x = (if x = 0 then 0
           else (let e = ilog2 \<bar>x\<bar> - 52 in of_int (round_half_even (x / pow2 e)) * pow2 e))"

text \<open>C's \<open>fmod\<close>: exact, with the sign of the first argument.\<close>

definition fmod :: "pyfloat \<Rightarrow> pyfloat \<Rightarrow> pyfloat" where
  "fmod x y = sgn x * (\<bar>x\<bar> - \<bar>y\<bar> * of_int \<lfloor>\<bar>x\<bar> / \<bar>y\<bar>\<rfloor>)"

text \<open>
  \<open>vx % wx\<close> on floats, as the interpreter computes it: \<open>fmod\<close>, then one
  (rounded) addition of the divisor when the remainder has the wrong sign.
\<close>

definition py_float_mod :: "pyfloat \<Rightarrow> pyfloat \<Rightarrow> error + pyfloat" where
  "py_float_mod vx wx =
     (if wx = 0 then Inl ZeroDivisionError
      else (let md = fmod vx wx in
            if md \<noteq> 0 \<and> (wx < 0) \<noteq> (md < 0) then Inr (fl (md + wx)) else Inr md))"

text \<open>
  \<open>vx // wx\<close> on floats, as the interpreter computes it: the quotient of
  \<open>vx - fmod(vx, wx)\<close> by \<open>wx\<close>, less one when the remainder had the wrong sign, then
  snapped to the nearest integral value.
\<close>

definition py_float_floordiv :: "pyfloat \<Rightarrow> pyfloat \<Rightarrow> error + pyfloat" where
  "py_float_floordiv vx wx =
     (if wx = 0 then Inl ZeroDivisionError
      else (let md = fmod vx wx;
                dv = fl (fl (vx - md) / wx);
                dv2 = (if md \<noteq> 0 \<and> (wx < 0) \<noteq> (md < 0) then fl (dv - 1) else dv)
            in if dv2 \<noteq> 0
               then (let f = of_int \<lfloor>dv2\<rfloor> in
                     if 1 / 2 < fl (dv2 - f) then Inr (fl (f + 1)) else Inr f)
               else Inr 0))"

text \<open>\<open>int(x)\<close> on a float truncates towards zero.\<close>

definition int_of_float :: "pyfloat \<Rightarrow> int" where
  "int_of_float x = (if 0 \<le> x then \<lfloor>x\<rfloor> else \<lceil>x\<rceil>)"

text \<open>
  \<open>format(x, ".1f")\<close>: the exact value rounded to one decimal, ties to even; a
  negative value keeps its sign even when it rounds to zero.
\<close>

definition fmt1 :: "pyfloat \<Rightarrow> string" where
  "fmt1 x =
     (let n = nat (round_half_even (\<bar>x\<bar> * 10)) in
      (if x < 0 then ''-'' else []) @ dec (n div 10) @ ''.'' @ [digit_char (n mod 10)])"

text \<open>
  \<open>xs[i]\<close>: an index from \<open>-len(xs)\<close> up to \<open>len(xs) - 1\<close> is in range, a negative
  one counting from the end; any other raises IndexError.
\<close>

definition list_get :: "'a list \<Rightarrow> int \<Rightarrow> error + 'a" where
  "list_get xs i =
     (if 0 \<le> i \<and> i < int (length xs) then Inr (xs ! nat i)
      else if i < 0 \<and> - int (length xs) \<le> i then Inr (xs ! nat (int (length xs) + i))
      else Inl IndexError)"

section \<open>Sign placement and rendering\<close>

definition signs :: "string list" where
  "signs = [''Aries'', ''Taurus'', ''Gemini'', ''Cancer'', ''Leo'', ''Virgo'', ''Libra'',
            ''Scorpio'', ''Sagittarius'', ''Capricorn'', ''Aquarius'', ''Pisces'']"

definition deg_to_sign :: "pyfloat \<Rightarrow> error + (string \<times> pyfloat)" where
  "deg_to_sign deg =
     (case py_float_floordiv deg 30 of
        Inl e \<Rightarrow> Inl e
      | Inr q \<Rightarrow>
          (let idx = int_of_float q mod 12 in
           case py_float_mod deg 30 of
             Inl e \<Rightarrow> Inl e
           | Inr wthn \<Rightarrow>
               (case list_get signs idx of
                  Inl e \<Rightarrow> Inl e
                | Inr s \<Rightarrow> Inr (s, wthn))))"

record chart =
  utc :: string
  positions :: "string \<rightharpoonup> pyfloat"
  asc :: pyfloat

definition body_names :: "string list" where
  "body_names = [''Sun'', ''Moon'', ''Mercury'', ''Venus'', ''Mars'', ''Jupiter'', ''Saturn'',
                 ''Uranus'', ''Neptune'', ''Pluto'']"

text \<open>The degree sign, code point 176.\<close>

definition degree_sign :: char where
  "degree_sign = CHR 0xB0"

definition newline :: char where
  "newline = CHR 0x0A"

definition render_line :: "string \<Rightarrow> string \<Rightarrow> pyfloat \<Rightarrow> string" where
  "render_line name s wthn = name @ '': '' @ s @ '' '' @ fmt1 wthn @ [degree_sign]"

fun body_lines :: "(string \<rightharpoonup> pyfloat) \<Rightarrow> string list \<Rightarrow> error + string list" where
  "body_lines pos [] = Inr []"
| "body_lines pos (k # ks) =
     (case pos k of
        None \<Rightarrow> Inl KeyError
      | Some deg \<Rightarrow>
          (case deg_to_sign deg of
             Inl e \<Rightarrow> Inl e
           | Inr (s, wthn) \<Rightarrow>
               (case body_lines pos ks of
                  Inl e \<Rightarrow> Inl e
                | Inr ls \<Rightarrow> Inr (render_line k s wthn # ls))))"

definition chart_to_text :: "chart \<Rightarrow> error + string" where
  "chart_to_text ch =
     (case deg_to_sign (asc ch) of
        Inl e \<Rightarrow> Inl e
      | Inr (s, wthn) \<Rightarrow>
          (case body_lines (positions ch) body_names of
             Inl e \<Rightarrow> Inl e
           | Inr ls \<Rightarrow> Inr (join [newline] (render_line ''Ascendant'' s wthn # ls))))"

section \<open>Sessions\<close>

datatype state = ASK_DATE | ASK_TIME | ASK_CITY | ASK_COUNTRY | ASK_TZ | ASK_TOPIC | ASK_FREEFORM

record birth_data =
  date :: "string option"
  time :: "string option"
  city :: "string option"
  country :: "string option"
  tz :: "string option"
  lat :: "pyfloat option"
  lon :: "pyfloat option"
  topic :: "string option"

record session =
  state :: state
  data :: birth_data

definition new_session :: session where
  "new_session =
     \<lparr>state = ASK_DATE,
      data = \<lparr>date = None, time = None, city = None, country = None, tz = None,
              lat = None, lon = None, topic = None\<rparr>\<rparr>"

type_synonym sessions = "int \<rightharpoonup> session"

section \<open>Collaborators\<close>

text \<open>
  The texts sent to the user are Russian sentences; each is a constructor here. The
  two prompts for a topic carry the keyboard of topic buttons.
\<close>

datatype message =
  MsgWriteText | MsgWelcome | MsgResetDone | MsgLetsStart
  | MsgBadDate | MsgAskTime | MsgBadTime | MsgAskCity
  | MsgAskTz | MsgBadTz
  | MsgChooseTopic | MsgAskQuestion | MsgNoApiKey | MsgGeoFail
  | MsgChartError error | MsgAnswer string | MsgChooseTopicAgain | MsgLost

text \<open>What a handler does to the outside, in order.\<close>

datatype effect =
  TgAnswerCallback string
  | TgSendMessage int message
  | CallGeocode "string option" "string option"
  | CallComputeChart
  | CallOpenAI

datatype body = SUN | MOON | MERCURY | VENUS | MARS | JUPITER | SATURN | URANUS | NEPTUNE | PLUTO

record datetime =
  dt_year :: int
  dt_month :: int
  dt_day :: int
  dt_hour :: int
  dt_minute :: int
  dt_second :: int

datatype label =
  LblRelationships | LblCareer | LblMoney | LblSelf | LblGeneralChart | LblGeneralTopic

record prompt =
  prompt_chart :: string
  prompt_topic :: label
  prompt_question :: string

text \<open>
  The services the program calls, as functions of their arguments; a call that raises
  returns \<open>Inl\<close>. \<open>nominatim\<close> is one search request with its decoding (the inner
  \<open>_try\<close>); \<open>zone_to_utc\<close> attaches the named zone to a local time and converts it to
  UTC; \<open>julday\<close>, \<open>calc_ut\<close> and \<open>houses_asc\<close> are the ephemeris library, the last
  returning the first of the angles; \<open>call_openai\<close> is the text generation request
  with the decoding of its answer.
\<close>

record env =
  OPENAI_API_KEY :: string
  nominatim :: "string option \<Rightarrow> error + (pyfloat \<times> pyfloat) option"
  zone_to_utc :: "string option \<Rightarrow> datetime \<Rightarrow> error + datetime"
  julday :: "int \<Rightarrow> int \<Rightarrow> int \<Rightarrow> pyfloat \<Rightarrow> error + pyfloat"
  calc_ut :: "pyfloat \<Rightarrow> body \<Rightarrow> error + pyfloat"
  houses_asc :: "pyfloat \<Rightarrow> pyfloat \<Rightarrow> pyfloat \<Rightarrow> error + pyfloat"
  call_openai :: "prompt \<Rightarrow> string \<Rightarrow> error + string"

section \<open>Geocoding\<close>

text \<open>An f-string field: \<open>None\<close> is printed as the word.\<close>

definition py_str :: "string option \<Rightarrow> string" where
  "py_str v = (case v of None \<Rightarrow> ''None'' | Some s \<Rightarrow> s)"

definition geocode_city ::
  "env \<Rightarrow> string option \<Rightarrow> string option \<Rightarrow> error + (pyfloat \<times> pyfloat) option" where
  "geocode_city ev cty ctry =
     (case nominatim ev (Some (py_str cty @ '', '' @ py_str ctry)) of
        Inl e \<Rightarrow> Inl e
      | Inr (Some res) \<Rightarrow> Inr (Some res)
      | Inr None \<Rightarrow>
          (case nominatim ev cty of
             Inl e \<Rightarrow> Inl e
           | Inr (Some res) \<Rightarrow> Inr (Some res)
           | Inr None \<Rightarrow> Inr None))"

section \<open>Chart computation\<close>

definition planets :: "(string \<times> body) list" where
  "planets = [(''Sun'', SUN), (''Moon'', MOON), (''Mercury'', MERCURY), (''Venus'', VENUS),
              (''Mars'', MARS), (''Jupiter'', JUPITER), (''Saturn'', SATURN),
              (''Uranus'', URANUS), (''Neptune'', NEPTUNE), (''Pluto'', PLUTO)]"

fun calc_positions ::
  "env \<Rightarrow> pyfloat \<Rightarrow> (string \<times> body) list \<Rightarrow> (string \<rightharpoonup> pyfloat)
     \<Rightarrow> error + (string \<rightharpoonup> pyfloat)" where
  "calc_positions ev jd [] pos = Inr pos"
| "calc_positions ev jd ((name, pid) # ps) pos =
     (case calc_ut ev jd pid of
        Inl e \<Rightarrow> Inl e
      | Inr lonv \<Rightarrow> calc_positions ev jd ps (pos(name \<mapsto> lonv)))"

text \<open>\<open>isoformat()\<close> of a datetime in UTC with no microseconds.\<close>

definition dt_isoformat_utc :: "datetime \<Rightarrow> string" where
  "dt_isoformat_utc t =
     zpad 4 (nat (dt_year t)) @ ''-'' @ zpad 2 (nat (dt_month t)) @ ''-''
       @ zpad 2 (nat (dt_day t)) @ ''T'' @ zpad 2 (nat (dt_hour t)) @ '':''
       @ zpad 2 (nat (dt_minute t)) @ '':'' @ zpad 2 (nat (dt_second t)) @ ''+00:00''"

definition compute_chart ::
  "env \<Rightarrow> pyfloat \<Rightarrow> pyfloat \<Rightarrow> datetime \<Rightarrow> string option \<Rightarrow> error + chart" where
  "compute_chart ev la lo dt_local tz_str =
     (case zone_to_utc ev tz_str dt_local of
        Inl e \<Rightarrow> Inl e
      | Inr dt_utc \<Rightarrow>
          (let hours = fl (fl (of_int (dt_hour dt_utc) + fl (of_int (dt_minute dt_utc) / 60))
                             + fl (of_int (dt_second dt_utc) / 3600)) in
           case julday ev (dt_year dt_utc) (dt_month dt_utc) (dt_day dt_utc) hours of
             Inl e \<Rightarrow> Inl e
           | Inr jd_ut \<Rightarrow>
               (case calc_positions ev jd_ut planets Map.empty of
                  Inl e \<Rightarrow> Inl e
                | Inr pos \<Rightarrow>
                    (case houses_asc ev jd_ut la lo of
                       Inl e \<Rightarrow> Inl e
                     | Inr a \<Rightarrow>
                         Inr \<lparr>utc = dt_isoformat_utc dt_utc, positions = pos, asc = a\<rparr>))))"

definition topic_label :: "string option \<Rightarrow> label" where
  "topic_label t =
     (if t = Some ''relationships'' then LblRelationships
      else if t = Some ''career'' then LblCareer
      else if t = Some ''money'' then LblMoney
      else if t = Some ''self'' then LblSelf
      else if t = Some ''general'' then LblGeneralChart
      else LblGeneralTopic)"

section \<open>The webhook\<close>

datatype update =
  CallbackQuery string int "string option"
  | TextMessage int "string option"
  | NoMessage

text \<open>
  The result of handling one update: the session store afterwards, the effects in
  order, and the exception that left the handler, if one did. The handler changes the
  session object in place, so what it stored before raising stays stored.
\<close>

record outcome =
  sessions_out :: sessions
  effects :: "effect list"
  raised :: "error option"

type_synonym step = "session \<times> effect list \<times> error option"

definition lower_char :: "char \<Rightarrow> char" where
  "lower_char c =
     (let n = (of_char c :: nat) in
      if (65 \<le> n \<and> n \<le> 90) \<or> (192 \<le> n \<and> n \<le> 222 \<and> n \<noteq> 215) then char_of (n + 32) else c)"

definition lower :: "string \<Rightarrow> string" where
  "lower s = map lower_char s"

definition starts_with :: "string \<Rightarrow> string \<Rightarrow> bool" where
  "starts_with p s = (take (length p) s = p)"

text \<open>\<open>s.split(sep, 1)\<close>\<close>

definition split_once :: "char \<Rightarrow> string \<Rightarrow> string list" where
  "split_once sep s =
     (if sep \<in> set s then [takeWhile (\<lambda>c. c \<noteq> sep) s, tl (dropWhile (\<lambda>c. c \<noteq> sep) s)]
      else [s])"

definition on_callback :: "sessions \<Rightarrow> string \<Rightarrow> int \<Rightarrow> string \<Rightarrow> outcome" where
  "on_callback S cq_id chat_id dat =
     (let sess = (case S chat_id of Some x \<Rightarrow> x | None \<Rightarrow> new_session);
          S1 = S(chat_id \<mapsto> sess)
      in if starts_with ''topic:'' dat then
           (case list_get (split_once (CHR '':'') dat) 1 of
              Inl e \<Rightarrow>
                \<lparr>sessions_out = S1, effects = [TgAnswerCallback cq_id], raised = Some e\<rparr>
            | Inr t \<Rightarrow>
                \<lparr>sessions_out =
                   S1(chat_id \<mapsto> sess\<lparr>state := ASK_FREEFORM,
                                         data := (data sess)\<lparr>topic := Some t\<rparr>\<rparr>),
                 effects = [TgAnswerCallback cq_id, TgSendMessage chat_id MsgAskQuestion],
                 raised = None\<rparr>)
         else \<lparr>sessions_out = S1, effects = [TgAnswerCallback cq_id], raised = None\<rparr>)"

definition ask_date :: "int \<Rightarrow> session \<Rightarrow> string \<Rightarrow> step" where
  "ask_date chat_id sess text =
     (case parse_date text of
        Inl e \<Rightarrow> (sess, [], Some e)
      | Inr None \<Rightarrow> (sess, [TgSendMessage chat_id MsgBadDate], None)
      | Inr (Some dt) \<Rightarrow>
          (sess\<lparr>state := ASK_TIME, data := (data sess)\<lparr>date := Some (isoformat dt)\<rparr>\<rparr>,
           [TgSendMessage chat_id MsgAskTime], None))"

definition ask_time :: "int \<Rightarrow> session \<Rightarrow> string \<Rightarrow> step" where
  "ask_time chat_id sess text =
     (case parse_time text of
        Inl e \<Rightarrow> (sess, [], Some e)
      | Inr None \<Rightarrow> (sess, [TgSendMessage chat_id MsgBadTime], None)
      | Inr (Some (h, m)) \<Rightarrow>
          (sess\<lparr>state := ASK_CITY,
                data := (data sess)\<lparr>time := Some (zpad 2 (nat h) @ '':'' @ zpad 2 (nat m))\<rparr>\<rparr>,
           [TgSendMessage chat_id MsgAskCity], None))"

definition ask_country :: "int \<Rightarrow> session \<Rightarrow> string \<Rightarrow> step" where
  "ask_country chat_id sess text =
     (sess\<lparr>state := ASK_TZ, data := (data sess)\<lparr>country := Some (strip text)\<rparr>\<rparr>,
      [TgSendMessage chat_id MsgAskTz], None)"

definition ask_tz :: "int \<Rightarrow> session \<Rightarrow> string \<Rightarrow> step" where
  "ask_tz chat_id sess text =
     (if CHR ''/'' \<notin> set text \<or> CHR '' '' \<in> set text
      then (sess, [TgSendMessage chat_id MsgBadTz], None)
      else (sess\<lparr>state := ASK_TOPIC, data := (data sess)\<lparr>tz := Some (strip text)\<rparr>\<rparr>,
            [TgSendMessage chat_id MsgChooseTopic], None))"

text \<open>
  The local date and time are rebuilt from the stored strings: a field that was never
  stored is \<open>None\<close> and has no \<open>split\<close>.
\<close>

definition local_datetime :: "birth_data \<Rightarrow> error + datetime" where
  "local_datetime d =
     (case date d of
        None \<Rightarrow> Inl AttributeError
      | Some ds \<Rightarrow>
          (case map_int (split_on (CHR ''-'') ds) of
             Inl e \<Rightarrow> Inl e
           | Inr [y, m, dy] \<Rightarrow>
               (case time d of
                  None \<Rightarrow> Inl AttributeError
                | Some ts \<Rightarrow>
                    (case map_int (split_on (CHR '':'') ts) of
                       Inl e \<Rightarrow> Inl e
                     | Inr [hh, mm] \<Rightarrow>
                         if valid_date \<lparr>year = y, month = m, day = dy\<rparr>
                            \<and> 0 \<le> hh \<and> hh \<le> 23 \<and> 0 \<le> mm \<and> mm \<le> 59
                         then Inr \<lparr>dt_year = y, dt_month = m, dt_day = dy, dt_hour = hh,
                                   dt_minute = mm, dt_second = 0\<rparr>
                         else Inl ValueError
                     | Inr _ \<Rightarrow> Inl ValueError))
           | Inr _ \<Rightarrow> Inl ValueError))"

text \<open>The chart and its rendering, inside one \<open>try\<close>.\<close>

definition chart_text ::
  "env \<Rightarrow> pyfloat \<Rightarrow> pyfloat \<Rightarrow> datetime \<Rightarrow> string option \<Rightarrow> error + string" where
  "chart_text ev la lo dt_local tz_str =
     (case compute_chart ev la lo dt_local tz_str of
        Inl e \<Rightarrow> Inl e
      | Inr ch \<Rightarrow> chart_to_text ch)"

definition ask_freeform :: "env \<Rightarrow> int \<Rightarrow> session \<Rightarrow> string \<Rightarrow> step" where
  "ask_freeform ev chat_id sess text =
     (if OPENAI_API_KEY ev = [] then (sess, [TgSendMessage chat_id MsgNoApiKey], None)
      else
        (let d = data sess;
             coords = (case geocode_city ev (city d) (country d) of
                         Inl e \<Rightarrow> None
                       | Inr r \<Rightarrow> r)
         in case coords of
              None \<Rightarrow>
                (sess\<lparr>state := ASK_CITY\<rparr>,
                 [CallGeocode (city d) (country d), TgSendMessage chat_id MsgGeoFail], None)
            | Some (la, lo) \<Rightarrow>
                (let d1 = d\<lparr>lat := Some la, lon := Some lo\<rparr>;
                     sess1 = sess\<lparr>data := d1\<rparr>
                 in case local_datetime d1 of
                      Inl e \<Rightarrow> (sess1, [CallGeocode (city d) (country d)], Some e)
                    | Inr dt_local \<Rightarrow>
                        (case chart_text ev la lo dt_local (tz d1) of
                           Inl e \<Rightarrow>
                             (sess1,
                              [CallGeocode (city d) (country d), CallComputeChart,
                               TgSendMessage chat_id (MsgChartError e)], None)
                         | Inr ctext \<Rightarrow>
                             (case call_openai ev
                                     \<lparr>prompt_chart = ctext, prompt_topic = topic_label (topic d1),
                                      prompt_question = text\<rparr> text of
                                Inl e \<Rightarrow>
                                  (sess1,
                                   [CallGeocode (city d) (country d), CallComputeChart,
                                    CallOpenAI], Some e)
                              | Inr answer \<Rightarrow>
                                  (sess1\<lparr>state := ASK_TOPIC\<rparr>,
                                   [CallGeocode (city d) (country d), CallComputeChart,
                                    CallOpenAI, TgSendMessage chat_id (MsgAnswer answer),
                                    TgSendMessage chat_id MsgChooseTopicAgain], None))))))"

text \<open>
  The dispatch on the state. The source tests the states one after another, each test
  at four columns with its body at eight. The test for \<open>ASK_CITY\<close> (line 306) stands at
  seven columns, which is none of the levels open at that point, and Python refuses such
  a line with an IndentationError (unindent does not match any outer indentation level).
  The handler as written therefore has no branch that takes a city: the lines under that
  test are not part of the model, and a text that arrives in state \<open>ASK_CITY\<close> ends with
  the error, the session as it was. Python reports the error when it compiles the file;
  the model attaches it to the one branch that is lost, and the other branches are as
  the source has them.
\<close>

definition on_text :: "env \<Rightarrow> int \<Rightarrow> session \<Rightarrow> string \<Rightarrow> step" where
  "on_text ev chat_id sess text =
     (case state sess of
        ASK_DATE \<Rightarrow> ask_date chat_id sess text
      | ASK_TIME \<Rightarrow> ask_time chat_id sess text
      | ASK_CITY \<Rightarrow> (sess, [], Some IndentationError)
      | ASK_COUNTRY \<Rightarrow> ask_country chat_id sess text
      | ASK_TZ \<Rightarrow> ask_tz chat_id sess text
      | ASK_FREEFORM \<Rightarrow> ask_freeform ev chat_id sess text
      | ASK_TOPIC \<Rightarrow> (sess, [TgSendMessage chat_id MsgLost], None))"

definition webhook :: "env \<Rightarrow> sessions \<Rightarrow> update \<Rightarrow> outcome" where
  "webhook ev S upd =
     (case upd of
        CallbackQuery cq_id chat_id dat \<Rightarrow>
          on_callback S cq_id chat_id (case dat of None \<Rightarrow> [] | Some x \<Rightarrow> x)
      | NoMessage \<Rightarrow> \<lparr>sessions_out = S, effects = [], raised = None\<rparr>
      | TextMessage chat_id txt \<Rightarrow>
          (let text = strip (case txt of None \<Rightarrow> [] | Some t \<Rightarrow> t) in
           if text = [] then
             \<lparr>sessions_out = S, effects = [TgSendMessage chat_id MsgWriteText], raised = None\<rparr>
           else if lower text \<in> {''/start'', ''start''} then
             \<lparr>sessions_out = S(chat_id \<mapsto> new_session),
              effects = [TgSendMessage chat_id MsgWelcome], raised = None\<rparr>
           else if lower text \<in> {''/reset'', ''reset''} then
             \<lparr>sessions_out = S(chat_id \<mapsto> new_session),
              effects = [TgSendMessage chat_id MsgResetDone], raised = None\<rparr>
           else
             (case S chat_id of
                None \<Rightarrow>
                  \<lparr>sessions_out = S(chat_id \<mapsto> new_session),
                   effects = [TgSendMessage chat_id MsgLetsStart], raised = None\<rparr>
              | Some sess \<Rightarrow>
                  (case on_text ev chat_id sess text of
                     (sess', es, r) \<Rightarrow>
                       \<lparr>sessions_out = S(chat_id \<mapsto> sess'), effects = es, raised = r\<rparr>))))"

text \<open>Handling a sequence of updates; an exception ends one request, not the process.\<close>

fun run :: "env \<Rightarrow> sessions \<Rightarrow> update list \<Rightarrow> sessions" where
  "run ev S [] = S"
| "run ev S (u # us) = run ev (sessions_out (webhook ev S u)) us"

section \<open>Vocabulary of the properties\<close>

text \<open>The texts the webhook treats as commands, before any state is looked at.\<close>

definition is_command :: "string \<Rightarrow> bool" where
  "is_command text = (lower text \<in> {''/start'', ''start'', ''/reset'', ''reset''})"

text \<open>
  The specification's reading of the timezone validator: exactly one \<open>/\<close> and no
  whitespace.
\<close>

definition tz_spec_ok :: "string \<Rightarrow> bool" where
  "tz_spec_ok t =
     (length (filter (\<lambda>c. c = CHR ''/'') t) = 1 \<and> list_all (\<lambda>c. \<not> is_space c) t)"

text \<open>Two concrete environments and a filled-in session, for the examples.\<close>

definition env_offline :: env where
  "env_offline =
     \<lparr>OPENAI_API_KEY = ''key'',
      nominatim = (\<lambda>q. Inr None),
      zone_to_utc = (\<lambda>z t. Inl KeyError),
      julday = (\<lambda>y m d h. Inl (OtherError ''swe'')),
      calc_ut = (\<lambda>jd b. Inl (OtherError ''swe'')),
      houses_asc = (\<lambda>jd la lo. Inl (OtherError ''swe'')),
      call_openai = (\<lambda>p t. Inl (OtherError ''http''))\<rparr>"

definition env_london :: env where
  "env_london =
     \<lparr>OPENAI_API_KEY = ''key'',
      nominatim = (\<lambda>q. Inr (Some (103 / 2, - 3 / 25))),
      zone_to_utc = (\<lambda>z t. if z = Some ''Europe/London'' then Inr t else Inl KeyError),
      julday = (\<lambda>y m d h. Inr (4895783 / 2)),
      calc_ut = (\<lambda>jd b. Inr 10),
      houses_asc = (\<lambda>jd la lo. Inr 20),
      call_openai = (\<lambda>p t. Inr ''answer'')\<rparr>"

definition sample_data :: birth_data where
  "sample_data =
     \<lparr>date = Some ''1990-01-01'', time = Some ''12:00'', city = Some ''London'',
      country = Some ''UK'', tz = Some ''Mars/Phobos'', lat = None, lon = None,
      topic = Some ''general''\<rparr>"

text \<open>
  The specification's reading of sign placement, in exact arithmetic: the sign at index
  \<open>floor(x / 30) mod 12\<close> and the remainder of \<open>x\<close> by 30.
\<close>

definition spec_sign_placement :: "rat \<Rightarrow> string \<times> rat" where
  "spec_sign_placement x = (signs ! nat (\<lfloor>x / 30\<rfloor> mod 12), x - 30 * of_int \<lfloor>x / 30\<rfloor>)"

text \<open>
  The pattern of a rendered line: the name, a colon and a space, one of the twelve
  signs, a space, digits with exactly one decimal, and the degree sign.
\<close>

definition num1_ok :: "string \<Rightarrow> bool" where
  "num1_ok n =
     (case rev n of
        f # p # ds \<Rightarrow> is_digit f \<and> p = CHR ''.'' \<and> ds \<noteq> [] \<and> list_all is_digit ds
      | _ \<Rightarrow> False)"

definition line_ok :: "string \<Rightarrow> string \<Rightarrow> bool" where
  "line_ok name l =
     list_ex (\<lambda>sg. starts_with (name @ '': '' @ sg @ '' '') l
                \<and> (let r = drop (length (name @ '': '' @ sg @ '' '')) l in
                    r \<noteq> [] \<and> last r = degree_sign \<and> num1_ok (butlast r))) signs"

text \<open>
  A remainder printed with one decimal, as a statement about the numeral alone: it is
  digits, a point and one digit, with no zero in front of a longer integer part, and,
  read as a number of tenths, it is the integer nearest to ten times the remainder, the
  even one of the two when the remainder lies half-way.
\<close>

definition one_decimal :: "rat \<Rightarrow> string \<Rightarrow> bool" where
  "one_decimal w num =
     (num1_ok num
      \<and> (length num = 3 \<or> hd num \<noteq> CHR ''0'')
      \<and> (\<bar>of_nat (dec_val num) - w * 10\<bar> < 1 / 2
           \<or> (\<bar>of_nat (dec_val num) - w * 10\<bar> = 1 / 2 \<and> even (dec_val num))))"

text \<open>
  The line of a body: its name, a colon and a space, the sign of its longitude, a
  space, the remainder of its longitude with one decimal, and the degree sign.
\<close>

definition placement_line :: "string \<Rightarrow> pyfloat \<Rightarrow> string \<Rightarrow> bool" where
  "placement_line name deg l =
     (case deg_to_sign deg of
        Inl e \<Rightarrow> False
      | Inr (s, w) \<Rightarrow>
          starts_with (name @ '': '' @ s @ '' '') l
          \<and> drop (length (name @ '': '' @ s @ '' '')) l \<noteq> []
          \<and> last l = degree_sign
          \<and> one_decimal w (butlast (drop (length (name @ '': '' @ s @ '' '')) l)))"

definition good_line :: "string \<Rightarrow> pyfloat \<Rightarrow> string \<Rightarrow> bool" where
  "good_line name deg l = (placement_line name deg l \<and> line_ok name l \<and> newline \<notin> set l)"

definition sample_chart :: chart where
  "sample_chart =
     \<lparr>utc = ''1990-01-01T12:00:00+00:00'',
      positions = map_of (zip body_names
         [2247 / 8, 5 / 4, 2401 / 8, 599 / 2, 240, 95, 285, 277, 283, 227]),
      asc = 51 / 2\<rparr>"

section \<open>Properties of the validators\<close>

lemma digit_not_space: "is_digit c \<Longrightarrow> \<not> is_space c"
  by (auto simp: is_digit_def is_space_def)

lemma digit_not_punct:
  "is_digit c \<Longrightarrow>
     c \<noteq> CHR '':'' \<and> c \<noteq> CHR ''-'' \<and> c \<noteq> CHR ''+'' \<and> c \<noteq> CHR ''_'' \<and> c \<noteq> CHR ''.''
     \<and> c \<noteq> CHR ''/''"
  by (auto simp: is_digit_def)

lemma fullmatch_time:
  "fullmatch time_pattern t \<longleftrightarrow>
     (\<exists>a b d e. t = [a, b, CHR '':'', d, e]
        \<and> is_digit a \<and> is_digit b \<and> is_digit d \<and> is_digit e)"
  by (auto simp: fullmatch_def time_pattern_def list_all2_Cons1)

lemma py_int_two_digits:
  assumes "is_digit a" "is_digit b"
  shows "py_int [a, b] = Inr (int (10 * digit_val a + digit_val b))"
  using assms digit_not_space[of a] digit_not_space[of b]
    digit_not_punct[of a] digit_not_punct[of b]
  by (simp add: py_int_def strip_def dec_val_def)

lemma split_time:
  assumes "is_digit a" "is_digit b" "is_digit d" "is_digit e"
  shows "split_on (CHR '':'') [a, b, CHR '':'', d, e] = [[a, b], [d, e]]"
  using assms digit_not_punct[of a] digit_not_punct[of b]
    digit_not_punct[of d] digit_not_punct[of e]
  by simp

lemma spec_time_shape: "spec_time t = Some hm \<Longrightarrow> fullmatch time_pattern t"
  by (cases t rule: spec_time.cases) (auto simp: fullmatch_time split: if_splits)

text \<open>
  C4, as stated, fails: the time parser strips its input first, so a string that is
  not itself of the form \<open>HH:MM\<close> (here with a leading space) is accepted.
\<close>

theorem parse_time_padded_counterexample:
  "parse_time '' 12:30'' = Inr (Some (12, 30)) \<and> spec_time '' 12:30'' = None"
  by (simp add: parse_time_def strip_def is_space_def fullmatch_def time_pattern_def
      is_digit_def py_int_def dec_val_def digit_val_def)

text \<open>
  C4, amended: the time parser never raises, and it accepts a string exactly when the
  string, with leading and trailing whitespace removed, has the form \<open>HH:MM\<close> with
  \<open>HH\<close> in 0..23 and \<open>MM\<close> in 0..59; it then returns the pair \<open>(HH, MM)\<close>. In
  particular hour 24 and minute 60 are rejected.
\<close>

theorem parse_time_eq: "parse_time s = Inr (spec_time (strip s))"
proof (cases "fullmatch time_pattern (strip s)")
  case True
  then obtain a b d e where t: "strip s = [a, b, CHR '':'', d, e]"
    and dg: "is_digit a" "is_digit b" "is_digit d" "is_digit e"
    unfolding fullmatch_time by blast
  define h where "h = int (10 * digit_val a + digit_val b)"
  define m where "m = int (10 * digit_val d + digit_val e)"
  have sp: "split_on (CHR '':'') (strip s) = [[a, b], [d, e]]"
    unfolding t by (rule split_time[OF dg])
  have pt: "parse_time s = (if h \<le> 23 \<and> m \<le> 59 then Inr (Some (h, m)) else Inr None)"
    using True by (simp add: parse_time_def sp py_int_two_digits dg h_def m_def)
  have st: "spec_time (strip s) = (if h \<le> 23 \<and> m \<le> 59 then Some (h, m) else None)"
    unfolding t using dg by (simp add: h_def m_def)
  show ?thesis by (simp add: pt st)
next
  case False
  then have "spec_time (strip s) = None"
    using spec_time_shape by (cases "spec_time (strip s)") auto
  with False show ?thesis by (simp add: parse_time_def)
qed

text \<open>The three outcomes of the date parser: the third one is an exception.\<close>

lemma strptime_fields_cases:
  "strptime_fields ys ms ds = Inl ValueError
   \<or> (\<exists>dt. strptime_fields ys ms ds = Inr dt \<and> valid_date dt)"
  by (simp add: strptime_fields_def Let_def)

lemma parse_date_cases:
  "parse_date s = Inr None \<or> parse_date s = Inl ValueError
   \<or> (\<exists>dt. parse_date s = Inr (Some dt) \<and> valid_date dt)"
proof -
  have c: "(case r of Inl e \<Rightarrow> Inl e | Inr dt \<Rightarrow> Inr (Some dt)) = Inl ValueError
      \<or> (\<exists>dt. (case r of Inl e \<Rightarrow> Inl e | Inr dt \<Rightarrow> Inr (Some dt)) = Inr (Some dt) \<and> valid_date dt)"
    if "r = Inl ValueError \<or> (\<exists>dt. r = Inr dt \<and> valid_date dt)" for r :: "error + pydate"
    using that by auto
  show ?thesis
    unfolding parse_date_def Let_def
    using c[OF strptime_fields_cases] by auto
qed

text \<open>
  C1: the claim says the date parser returns the invalid sentinel for \<open>2024-13-40\<close>
  and never raises. The string matches the parser's own pattern and is handed to
  \<open>strptime\<close>, whose ValueError for month 13 is not caught.
\<close>

theorem parse_date_2024_13_40_raises: "parse_date ''2024-13-40'' = Inl ValueError"
  by (simp add: parse_date_def strip_def is_space_def fullmatch_def ymd_pattern_def
      is_digit_def strptime_fields_def dec_val_def digit_val_def)

section \<open>Properties of the conversation\<close>

lemma strip_idem: "strip (strip s) = strip s"
proof -
  define u where "u = dropWhile is_space s"
  define w where "w = dropWhile is_space (rev u)"
  have u: "u = [] \<or> \<not> is_space (hd u)"
    unfolding u_def using hd_dropWhile[of is_space s] by blast
  have split: "rev u = takeWhile is_space (rev u) @ w"
    unfolding w_def by simp
  have "dropWhile is_space (rev w) = rev w"
  proof (cases "w = []")
    case True
    then show ?thesis by simp
  next
    case False
    from split have "rev (rev u) = rev (takeWhile is_space (rev u) @ w)"
      by simp
    then have eq: "u = rev w @ rev (takeWhile is_space (rev u))"
      by (simp only: rev_rev_ident rev_append)
    from False have nw: "rev w \<noteq> []" by simp
    from eq nw have "hd u = hd (rev w)"
      using hd_append2[OF nw, of "rev (takeWhile is_space (rev u))"] by simp
    moreover from eq nw have "u \<noteq> []" by auto
    ultimately have "\<not> is_space (hd (rev w))" using u by simp
    then show ?thesis by (simp add: dropWhile_eq_self_iff)
  qed
  moreover have "dropWhile is_space w = w"
    unfolding w_def by simp
  ultimately show ?thesis
    unfolding strip_def u_def[symmetric] w_def[symmetric] by simp
qed

lemma split_once_topic:
  assumes "starts_with ''topic:'' p"
  shows "split_once (CHR '':'') p = [''topic'', drop 6 p]"
proof -
  have "length ''topic:'' = 6" by simp
  then have "take 6 p = ''topic:''"
    using assms unfolding starts_with_def by (simp only:)
  then have "p = ''topic:'' @ drop 6 p"
    using append_take_drop_id[of 6 p] by simp
  then obtain r where p: "p = ''topic:'' @ r" and r: "r = drop 6 p" by blast
  show ?thesis unfolding r[symmetric] unfolding p by (simp add: split_once_def)
qed


lemma webhook_text:
  assumes "strip t \<noteq> []" "\<not> is_command (strip t)" "S c = Some sess"
  shows "webhook ev S (TextMessage c (Some t)) =
           (case on_text ev c sess (strip t) of
              (sess', es, r) \<Rightarrow> \<lparr>sessions_out = S(c \<mapsto> sess'), effects = es, raised = r\<rparr>)"
  using assms by (simp add: webhook_def is_command_def)

text \<open>
  Nothing around the date parser catches its exception: the request ends with it, no
  message is sent and the session stays as it was.
\<close>

lemma webhook_bad_date_raises:
  "webhook ev [7 \<mapsto> new_session] (TextMessage 7 (Some ''2024-13-40'')) =
     \<lparr>sessions_out = [7 \<mapsto> new_session], effects = [], raised = Some ValueError\<rparr>"
proof -
  have s: "strip ''2024-13-40'' = ''2024-13-40''"
    by (simp add: strip_def is_space_def)
  have n: "\<not> is_command ''2024-13-40''"
    by (simp add: is_command_def lower_def lower_char_def)
  have p: "parse_date ''2024-13-40'' = Inl ValueError"
    by (simp add: parse_date_def strip_def is_space_def fullmatch_def ymd_pattern_def
      is_digit_def strptime_fields_def dec_val_def digit_val_def)
  show ?thesis
    using webhook_text[of "''2024-13-40''" "[7 \<mapsto> new_session]" 7 new_session ev]
    by (simp add: s n on_text_def ask_date_def p new_session_def)
qed

lemma webhook_topic_callback:
  assumes "starts_with ''topic:'' p"
  shows "webhook ev S (CallbackQuery q c (Some p)) =
           (let sess = (case S c of Some x \<Rightarrow> x | None \<Rightarrow> new_session) in
            \<lparr>sessions_out = S(c \<mapsto> sess\<lparr>state := ASK_FREEFORM,
                                         data := (data sess)\<lparr>topic := Some (drop 6 p)\<rparr>\<rparr>),
             effects = [TgAnswerCallback q, TgSendMessage c MsgAskQuestion],
             raised = None\<rparr>)"
  using assms
  by (simp add: webhook_def on_callback_def split_once_topic list_get_def Let_def)

lemma strip_why: "strip ''why?'' = ''why?''"
  by (simp add: strip_def is_space_def)

lemma not_command_why: "\<not> is_command ''why?''"
  by (simp add: is_command_def lower_def lower_char_def)

text \<open>
  C6: a text that is \<open>/start\<close> or \<open>/reset\<close> (in any letter case, with whitespace
  around it) replaces the chat's session, whatever it was and whether or not there was
  one, by the fresh session: state \<open>ASK_DATE\<close> and every data field empty. No other
  chat's session changes and nothing is raised.
\<close>

theorem start_reset_fresh:
  assumes "lower (strip t) = ''/start'' \<or> lower (strip t) = ''/reset''"
  shows "sessions_out (webhook ev S (TextMessage c (Some t))) = S(c \<mapsto> new_session)
         \<and> raised (webhook ev S (TextMessage c (Some t))) = None
         \<and> state new_session = ASK_DATE
         \<and> data new_session = \<lparr>date = None, time = None, city = None, country = None, tz = None,
              lat = None, lon = None, topic = None\<rparr>"
proof -
  from assms have "strip t \<noteq> []" by (auto simp: lower_def)
  with assms show ?thesis
    by (auto simp: webhook_def new_session_def)
qed

text \<open>The reset command on a session that is waiting for the question, all data collected.\<close>

theorem start_reset_fresh_witness:
  "lower (strip ''/Reset '') = ''/reset''
   \<and> sessions_out (webhook env_offline [7 \<mapsto> \<lparr>state = ASK_FREEFORM, data = sample_data\<rparr>]
        (TextMessage 7 (Some ''/Reset ''))) = [7 \<mapsto> new_session]"
proof -
  have h: "lower (strip ''/Reset '') = ''/reset''"
    by code_simp
  from start_reset_fresh[where t = "''/Reset ''" and ev = env_offline and c = 7
      and S = "[7 \<mapsto> \<lparr>state = ASK_FREEFORM, data = sample_data\<rparr>]"] h
  show ?thesis by simp
qed

text \<open>
  C10: a callback whose payload starts with \<open>topic:\<close> is honoured in every state. The
  chat's session (the fresh one when the chat has none) gets the rest of the payload as
  its topic and moves to \<open>ASK_FREEFORM\<close>; no other field is looked at or changed.
\<close>

theorem topic_callback_any_state:
  assumes "starts_with ''topic:'' p"
  shows "sessions_out (webhook ev S (CallbackQuery q c (Some p))) c =
           Some ((case S c of Some x \<Rightarrow> x | None \<Rightarrow> new_session)
                   \<lparr>state := ASK_FREEFORM,
                    data := (data (case S c of Some x \<Rightarrow> x | None \<Rightarrow> new_session))
                              \<lparr>topic := Some (drop 6 p)\<rparr>\<rparr>)
         \<and> raised (webhook ev S (CallbackQuery q c (Some p))) = None"
  using webhook_topic_callback[OF assms, of ev S q c] by (simp add: Let_def)

text \<open>A topic button pressed in a fresh session, before any birth data was entered.\<close>

theorem topic_callback_any_state_witness:
  "starts_with ''topic:'' ''topic:career''
   \<and> sessions_out (webhook env_offline [7 \<mapsto> new_session]
        (CallbackQuery ''cb'' 7 (Some ''topic:career''))) 7 =
       Some \<lparr>state = ASK_FREEFORM,
             data = \<lparr>date = None, time = None, city = None, country = None, tz = None,
                     lat = None, lon = None, topic = Some ''career''\<rparr>\<rparr>"
proof -
  have h: "starts_with ''topic:'' ''topic:career''"
    by (simp add: starts_with_def)
  from topic_callback_any_state[OF h, of env_offline "[7 \<mapsto> new_session]" "''cb''" 7] h
  show ?thesis by (simp add: new_session_def)
qed

text \<open>
  C2, as stated, fails: the validator only asks for some \<open>/\<close> and for no space
  character, so an identifier with two slashes is accepted and stored.
\<close>

theorem ask_tz_two_slashes_counterexample:
  "map_option state
     (sessions_out (webhook env_offline [7 \<mapsto> \<lparr>state = ASK_TZ, data = sample_data\<rparr>]
        (TextMessage 7 (Some ''America/Argentina/Buenos_Aires''))) 7) = Some ASK_TOPIC
   \<and> \<not> tz_spec_ok ''America/Argentina/Buenos_Aires''"
  by (simp add: webhook_def strip_def is_space_def lower_def lower_char_def on_text_def
      ask_tz_def tz_spec_ok_def)

text \<open>
  C2, amended: in state \<open>ASK_TZ\<close>, a text that is not a command is accepted if and
  only if, with leading and trailing whitespace removed, it contains at least one \<open>/\<close>
  and no space character. Acceptance stores the trimmed text as the timezone and moves
  to \<open>ASK_TOPIC\<close>; rejection leaves every session as it was. Nothing is raised.
\<close>

theorem ask_tz_accepts_iff:
  assumes "S c = Some sess" "state sess = ASK_TZ" "\<not> is_command (strip t)"
  shows "sessions_out (webhook ev S (TextMessage c (Some t))) =
           (if CHR ''/'' \<in> set (strip t) \<and> CHR '' '' \<notin> set (strip t)
            then S(c \<mapsto> sess\<lparr>state := ASK_TOPIC, data := (data sess)\<lparr>tz := Some (strip t)\<rparr>\<rparr>)
            else S)
         \<and> raised (webhook ev S (TextMessage c (Some t))) = None"
proof (cases "strip t = []")
  case True
  then show ?thesis by (simp add: webhook_def)
next
  case False
  have "S(c \<mapsto> sess) = S" using assms(1) by (rule map_upd_triv)
  then show ?thesis
    using assms False
    by (simp add: webhook_text on_text_def ask_tz_def strip_idem)
qed


text \<open>A rejected and an accepted timezone, from the same session.\<close>

theorem ask_tz_accepts_iff_witness:
  "\<not> is_command (strip ''Europe Berlin'') \<and> \<not> is_command (strip ''Europe/Berlin'')
   \<and> sessions_out (webhook env_offline [7 \<mapsto> \<lparr>state = ASK_TZ, data = sample_data\<rparr>]
        (TextMessage 7 (Some ''Europe Berlin'')))
       = [7 \<mapsto> \<lparr>state = ASK_TZ, data = sample_data\<rparr>]
   \<and> sessions_out (webhook env_offline [7 \<mapsto> \<lparr>state = ASK_TZ, data = sample_data\<rparr>]
        (TextMessage 7 (Some ''Europe/Berlin'')))
       = [7 \<mapsto> \<lparr>state = ASK_TOPIC, data = sample_data\<lparr>tz := Some ''Europe/Berlin''\<rparr>\<rparr>]"
proof -
  let ?sess = "\<lparr>state = ASK_TZ, data = sample_data\<rparr>"
  have h1: "[7 \<mapsto> ?sess] (7::int) = Some ?sess" by simp
  have h2: "state ?sess = ASK_TZ" by simp
  have s1: "strip ''Europe Berlin'' = ''Europe Berlin''"
    by (simp add: strip_def is_space_def)
  have s2: "strip ''Europe/Berlin'' = ''Europe/Berlin''"
    by (simp add: strip_def is_space_def)
  have h3: "\<not> is_command (strip ''Europe Berlin'')"
    by (simp add: s1 is_command_def lower_def lower_char_def)
  have h4: "\<not> is_command (strip ''Europe/Berlin'')"
    by (simp add: s2 is_command_def lower_def lower_char_def)
  from ask_tz_accepts_iff[where S = "[7 \<mapsto> ?sess]" and c = 7 and sess = ?sess
      and ev = env_offline and t = "''Europe Berlin''", OF h1 h2 h3]
    ask_tz_accepts_iff[where S = "[7 \<mapsto> ?sess]" and c = 7 and sess = ?sess
      and ev = env_offline and t = "''Europe/Berlin''", OF h1 h2 h4]
    h3 h4
  show ?thesis by (simp add: s1 s2)
qed

lemma fullmatch_first_digit:
  "fullmatch (D # ps) u \<Longrightarrow> \<exists>x xs. u = x # xs \<and> is_digit x"
  by (auto simp: fullmatch_def list_all2_Cons1)

lemma digit_first_not_command:
  assumes "is_digit x"
  shows "\<not> is_command (x # xs)"
proof -
  have "lower_char x = x"
    using assms by (auto simp: lower_char_def is_digit_def Let_def)
  moreover have "x \<noteq> CHR ''/''" "x \<noteq> CHR ''s''" "x \<noteq> CHR ''r''"
    using assms by (auto simp: is_digit_def)
  ultimately show ?thesis
    by (simp add: is_command_def lower_def)
qed

lemma parse_date_text:
  assumes "parse_date d = Inr (Some dt)"
  shows "strip d \<noteq> [] \<and> \<not> is_command (strip d) \<and> parse_date (strip d) = Inr (Some dt)"
proof -
  have "fullmatch ymd_pattern (strip d) \<or> fullmatch dmy_pattern (strip d)"
    using assms by (auto simp: parse_date_def Let_def split: if_splits)
  then obtain x xs where "strip d = x # xs" "is_digit x"
    using fullmatch_first_digit unfolding ymd_pattern_def dmy_pattern_def by blast
  moreover have "parse_date (strip d) = parse_date d"
    by (simp add: parse_date_def strip_idem)
  ultimately show ?thesis
    using assms digit_first_not_command by simp
qed

lemma parse_time_text:
  assumes "parse_time t = Inr (Some tm)"
  shows "strip t \<noteq> [] \<and> \<not> is_command (strip t) \<and> parse_time (strip t) = Inr (Some tm)"
proof -
  have "fullmatch time_pattern (strip t)"
    using assms by (auto simp: parse_time_def Let_def split: if_splits)
  then obtain x xs where "strip t = x # xs" "is_digit x"
    using fullmatch_first_digit unfolding time_pattern_def by blast
  moreover have "parse_time (strip t) = parse_time t"
    by (simp add: parse_time_def strip_idem)
  ultimately show ?thesis
    using assms digit_first_not_command by simp
qed

lemma strip_berlin: "strip ''Berlin, Germany'' = ''Berlin, Germany''"
  by (simp add: strip_def is_space_def)

lemma strip_europe: "strip ''Europe/Berlin'' = ''Europe/Berlin''"
  by (simp add: strip_def is_space_def)

lemma not_command_berlin: "\<not> is_command ''Berlin, Germany''"
  by (simp add: is_command_def lower_def lower_char_def)

lemma not_command_europe: "\<not> is_command ''Europe/Berlin''"
  by (simp add: is_command_def lower_def lower_char_def)

text \<open>
  C5: the claim says the five inputs are five accepted transitions, the third taking
  the machine from \<open>ASK_CITY\<close> straight to \<open>ASK_TZ\<close> with the country set. In the
  handler as written the date and the time are accepted, and then the machine is in
  \<open>ASK_CITY\<close>, where no branch takes a text: \<open>Berlin, Germany\<close> and \<open>Europe/Berlin\<close>
  both end with the IndentationError of line 306, the state stays \<open>ASK_CITY\<close>, and
  city, country and timezone are never stored. Only the topic button, which is handled
  before the dispatch, then moves the session to \<open>ASK_FREEFORM\<close>.
\<close>

theorem berlin_flow_stalls_at_city:
  assumes "parse_date d = Inr (Some dt)" and "parse_time t = Inr (Some (h, m))"
    and "starts_with ''topic:'' p" and "S c = Some new_session"
  shows
    "(let u1 = TextMessage c (Some d); u2 = TextMessage c (Some t);
          u3 = TextMessage c (Some ''Berlin, Germany'');
          u4 = TextMessage c (Some ''Europe/Berlin''); u5 = CallbackQuery q c (Some p)
      in map (\<lambda>us. map_option state (run ev S us c))
           [[], [u1], [u1, u2], [u1, u2, u3], [u1, u2, u3, u4], [u1, u2, u3, u4, u5]]
         = [Some ASK_DATE, Some ASK_TIME, Some ASK_CITY, Some ASK_CITY, Some ASK_CITY,
            Some ASK_FREEFORM]
       \<and> map (\<lambda>(us, u). raised (webhook ev (run ev S us) u))
           [([], u1), ([u1], u2), ([u1, u2], u3), ([u1, u2, u3], u4), ([u1, u2, u3, u4], u5)]
         = [None, None, Some IndentationError, Some IndentationError, None]
       \<and> map_option data (run ev S [u1, u2, u3, u4, u5] c)
         = Some \<lparr>date = Some (isoformat dt),
                 time = Some (zpad 2 (nat h) @ '':'' @ zpad 2 (nat m)),
                 city = None, country = None, tz = None, lat = None, lon = None,
                 topic = Some (drop 6 p)\<rparr>)"
proof -
  define s1 where "s1 = new_session\<lparr>state := ASK_TIME,
    data := (data new_session)\<lparr>date := Some (isoformat dt)\<rparr>\<rparr>"
  define s2 where "s2 = s1\<lparr>state := ASK_CITY,
    data := (data s1)\<lparr>time := Some (zpad 2 (nat h) @ '':'' @ zpad 2 (nat m))\<rparr>\<rparr>"
  define s5 where "s5 = s2\<lparr>state := ASK_FREEFORM,
    data := (data s2)\<lparr>topic := Some (drop 6 p)\<rparr>\<rparr>"
  have w1: "webhook ev S (TextMessage c (Some d)) =
      \<lparr>sessions_out = S(c \<mapsto> s1), effects = [TgSendMessage c MsgAskTime], raised = None\<rparr>"
    using parse_date_text[OF assms(1)] assms(4)
    by (simp add: webhook_text on_text_def ask_date_def new_session_def s1_def)
  have w2: "webhook ev (S(c \<mapsto> s1)) (TextMessage c (Some t)) =
      \<lparr>sessions_out = S(c \<mapsto> s2), effects = [TgSendMessage c MsgAskCity], raised = None\<rparr>"
    using parse_time_text[OF assms(2)]
    by (simp add: webhook_text on_text_def ask_time_def s1_def s2_def)
  have w3: "webhook ev (S(c \<mapsto> s2)) (TextMessage c (Some ''Berlin, Germany'')) =
      \<lparr>sessions_out = S(c \<mapsto> s2), effects = [], raised = Some IndentationError\<rparr>"
    by (simp add: webhook_text strip_berlin not_command_berlin on_text_def s2_def)
  have w4: "webhook ev (S(c \<mapsto> s2)) (TextMessage c (Some ''Europe/Berlin'')) =
      \<lparr>sessions_out = S(c \<mapsto> s2), effects = [], raised = Some IndentationError\<rparr>"
    by (simp add: webhook_text strip_europe not_command_europe on_text_def s2_def)
  have w5: "webhook ev (S(c \<mapsto> s2)) (CallbackQuery q c (Some p)) =
      \<lparr>sessions_out = S(c \<mapsto> s5),
       effects = [TgAnswerCallback q, TgSendMessage c MsgAskQuestion], raised = None\<rparr>"
    using webhook_topic_callback[OF assms(3), of ev "S(c \<mapsto> s2)" q c]
    by (simp add: s5_def)
  show ?thesis
    using assms(4)
    by (simp add: Let_def w1 w2 w3 w4 w5)
      (simp add: s1_def s2_def s5_def new_session_def)
qed

text \<open>The flow with a date in the second accepted form.\<close>

theorem berlin_flow_stalls_at_city_witness:
  "parse_date ''14.08.1992'' = Inr (Some \<lparr>year = 1992, month = 8, day = 14\<rparr>)
   \<and> parse_time ''07:30'' = Inr (Some (7, 30))
   \<and> run env_offline [7 \<mapsto> new_session]
        [TextMessage 7 (Some ''14.08.1992''), TextMessage 7 (Some ''07:30''),
         TextMessage 7 (Some ''Berlin, Germany'')] 7
       = Some \<lparr>state = ASK_CITY,
               data = \<lparr>date = Some ''1992-08-14'', time = Some ''07:30'',
                       city = None, country = None, tz = None, lat = None, lon = None,
                       topic = None\<rparr>\<rparr>
   \<and> raised (webhook env_offline
        (run env_offline [7 \<mapsto> new_session]
           [TextMessage 7 (Some ''14.08.1992''), TextMessage 7 (Some ''07:30'')])
        (TextMessage 7 (Some ''Berlin, Germany''))) = Some IndentationError
   \<and> run env_offline [7 \<mapsto> new_session]
        [TextMessage 7 (Some ''14.08.1992''), TextMessage 7 (Some ''07:30''),
         TextMessage 7 (Some ''Berlin, Germany''), TextMessage 7 (Some ''Europe/Berlin''),
         CallbackQuery ''cb'' 7 (Some ''topic:general'')] 7
       = Some \<lparr>state = ASK_FREEFORM,
               data = \<lparr>date = Some ''1992-08-14'', time = Some ''07:30'',
                       city = None, country = None, tz = None, lat = None, lon = None,
                       topic = Some ''general''\<rparr>\<rparr>"
proof -
  have h1: "parse_date ''14.08.1992'' = Inr (Some \<lparr>year = 1992, month = 8, day = 14\<rparr>)"
    by (simp add: parse_date_def strip_def is_space_def fullmatch_def ymd_pattern_def
        dmy_pattern_def is_digit_def strptime_fields_def dec_val_def digit_val_def
        valid_date_def days_in_month_def)
  have h2: "parse_time ''07:30'' = Inr (Some (7, 30))"
    by (simp add: parse_time_def strip_def is_space_def fullmatch_def time_pattern_def
        is_digit_def py_int_def dec_val_def digit_val_def)
  have h3: "starts_with ''topic:'' ''topic:general''"
    by (simp add: starts_with_def)
  have h4: "[7 \<mapsto> new_session] (7::int) = Some new_session" by simp
  have iso: "isoformat \<lparr>year = 1992, month = 8, day = 14\<rparr> = ''1992-08-14''"
    by code_simp
  have tm: "zpad 2 (nat 7) @ '':'' @ zpad 2 (nat 30) = ''07:30''"
    by code_simp
  let ?u1 = "TextMessage 7 (Some ''14.08.1992'')"
  let ?u2 = "TextMessage 7 (Some ''07:30'')"
  let ?u3 = "TextMessage 7 (Some ''Berlin, Germany'')"
  let ?u4 = "TextMessage 7 (Some ''Europe/Berlin'')"
  let ?u5 = "CallbackQuery ''cb'' 7 (Some ''topic:general'')"
  let ?S = "[7 \<mapsto> new_session] :: sessions"
  note bf = berlin_flow_stalls_at_city[where S = ?S and c = 7 and ev = env_offline
      and q = "''cb''", OF h1 h2 h3 h4, unfolded Let_def iso tm]
  from bf have states: "map (\<lambda>us. map_option state (run env_offline ?S us 7))
           [[], [?u1], [?u1, ?u2], [?u1, ?u2, ?u3], [?u1, ?u2, ?u3, ?u4],
            [?u1, ?u2, ?u3, ?u4, ?u5]]
         = [Some ASK_DATE, Some ASK_TIME, Some ASK_CITY, Some ASK_CITY, Some ASK_CITY,
            Some ASK_FREEFORM]"
    by blast
  from bf have errs: "map (\<lambda>(us, u). raised (webhook env_offline (run env_offline ?S us) u))
           [([], ?u1), ([?u1], ?u2), ([?u1, ?u2], ?u3), ([?u1, ?u2, ?u3], ?u4),
            ([?u1, ?u2, ?u3, ?u4], ?u5)]
         = [None, None, Some IndentationError, Some IndentationError, None]"
    by blast
  from bf have dt5: "map_option data (run env_offline ?S [?u1, ?u2, ?u3, ?u4, ?u5] 7) =
      Some \<lparr>date = Some ''1992-08-14'', time = Some ''07:30'',
             city = None, country = None, tz = None, lat = None, lon = None,
             topic = Some (drop 6 ''topic:general'')\<rparr>"
    by blast
  from states have st5: "map_option state (run env_offline ?S [?u1, ?u2, ?u3, ?u4, ?u5] 7)
      = Some ASK_FREEFORM"
    by (simp only: list.map list.inject)
  from errs have e3: "raised (webhook env_offline (run env_offline ?S [?u1, ?u2]) ?u3)
      = Some IndentationError"
    by (simp only: list.map list.inject prod.case)
  from st5 dt5 obtain x where x: "run env_offline ?S [?u1, ?u2, ?u3, ?u4, ?u5] 7 = Some x"
    "state x = ASK_FREEFORM"
    "data x = \<lparr>date = Some ''1992-08-14'', time = Some ''07:30'',
             city = None, country = None, tz = None, lat = None, lon = None,
             topic = Some ''general''\<rparr>"
    by (cases "run env_offline ?S [?u1, ?u2, ?u3, ?u4, ?u5] 7") auto
  then have x5: "run env_offline ?S [?u1, ?u2, ?u3, ?u4, ?u5] 7 =
      Some \<lparr>state = ASK_FREEFORM,
            data = \<lparr>date = Some ''1992-08-14'', time = Some ''07:30'',
                    city = None, country = None, tz = None, lat = None, lon = None,
                    topic = Some ''general''\<rparr>\<rparr>"
    by (cases x) simp
  have x3: "run env_offline ?S [?u1, ?u2, ?u3] 7 =
      Some \<lparr>state = ASK_CITY,
            data = \<lparr>date = Some ''1992-08-14'', time = Some ''07:30'',
                    city = None, country = None, tz = None, lat = None, lon = None,
                    topic = None\<rparr>\<rparr>"
    by code_simp
  from h1 h2 x3 e3 x5 show ?thesis by (simp only: simp_thms)
qed

lemma local_datetime_coords:
  "local_datetime (d\<lparr>lat := a, lon := b\<rparr>) = local_datetime d"
  by (simp add: local_datetime_def split: option.splits sum.splits list.splits)

lemma dom_calc_positions:
  "calc_positions ev jd ps pos = Inr pos' \<Longrightarrow> dom pos' = dom pos \<union> fst ` set ps"
proof (induction ps arbitrary: pos)
  case Nil
  then show ?case by simp
next
  case (Cons a ps)
  obtain name pid where a: "a = (name, pid)" by (cases a)
  from Cons.prems obtain v where "calc_ut ev jd pid = Inr v"
    and "calc_positions ev jd ps (pos(name \<mapsto> v)) = Inr pos'"
    by (auto simp: a split: sum.splits)
  then have "dom pos' = dom (pos(name \<mapsto> v)) \<union> fst ` set ps"
    using Cons.IH[of "pos(name \<mapsto> v)"] by blast
  then show ?case
    by (simp add: a)
qed

lemma compute_chart_complete:
  "(case compute_chart ev la lo dtl tzs of
      Inl e \<Rightarrow> True
    | Inr ch \<Rightarrow> dom (positions ch) = set body_names)"
proof (cases "compute_chart ev la lo dtl tzs")
  case (Inl e)
  then show ?thesis by simp
next
  case (Inr ch)
  then obtain jd pos where "calc_positions ev jd planets Map.empty = Inr pos"
    and "positions ch = pos"
    by (auto simp: compute_chart_def Let_def split: sum.splits)
  with dom_calc_positions[of ev jd planets Map.empty pos] Inr show ?thesis
    by (simp add: planets_def body_names_def)
qed

text \<open>
  C7: in state \<open>ASK_FREEFORM\<close>, with the generation key configured, when geocoding
  finds nothing or raises, the session goes back to \<open>ASK_CITY\<close> with every stored
  field, among them country, date and time, as it was; one message is sent and the chart
  is not computed.
\<close>

theorem geocode_miss_regresses:
  assumes "S c = Some sess" and "state sess = ASK_FREEFORM" and "OPENAI_API_KEY ev \<noteq> []"
    and "strip t \<noteq> []" and "\<not> is_command (strip t)"
    and "geocode_city ev (city (data sess)) (country (data sess)) = Inr None
         \<or> geocode_city ev (city (data sess)) (country (data sess)) = Inl e"
  shows "webhook ev S (TextMessage c (Some t)) =
           \<lparr>sessions_out = S(c \<mapsto> sess\<lparr>state := ASK_CITY\<rparr>),
            effects = [CallGeocode (city (data sess)) (country (data sess)),
                       TgSendMessage c MsgGeoFail],
            raised = None\<rparr>
         \<and> map_option data (sessions_out (webhook ev S (TextMessage c (Some t))) c)
             = Some (data sess)
         \<and> CallComputeChart \<notin> set (effects (webhook ev S (TextMessage c (Some t))))"
proof -
  have "ask_freeform ev c sess (strip t) =
          (sess\<lparr>state := ASK_CITY\<rparr>,
           [CallGeocode (city (data sess)) (country (data sess)), TgSendMessage c MsgGeoFail],
           None)"
    using assms(3,6) by (auto simp: ask_freeform_def Let_def)
  then show ?thesis
    using assms(1,2,4,5) by (simp add: webhook_text on_text_def)
qed

text \<open>A place that the geocoder does not know.\<close>

theorem geocode_miss_regresses_witness:
  "webhook env_offline [7 \<mapsto> \<lparr>state = ASK_FREEFORM, data = sample_data\<rparr>]
       (TextMessage 7 (Some ''why?'')) =
     \<lparr>sessions_out = [7 \<mapsto> \<lparr>state = ASK_CITY, data = sample_data\<rparr>],
      effects = [CallGeocode (Some ''London'') (Some ''UK''), TgSendMessage 7 MsgGeoFail],
      raised = None\<rparr>"
proof -
  let ?sess = "\<lparr>state = ASK_FREEFORM, data = sample_data\<rparr>"
  have h1: "[7 \<mapsto> ?sess] (7::int) = Some ?sess" by simp
  have h2: "state ?sess = ASK_FREEFORM" by simp
  have h3: "OPENAI_API_KEY env_offline \<noteq> []" by (simp add: env_offline_def)
  have h4: "strip ''why?'' \<noteq> []" by (simp add: strip_def is_space_def)
  have h5: "\<not> is_command (strip ''why?'')"
    by (simp add: strip_def is_space_def is_command_def lower_def lower_char_def)
  have h6: "geocode_city env_offline (city (data ?sess)) (country (data ?sess)) = Inr None
     \<or> geocode_city env_offline (city (data ?sess)) (country (data ?sess)) = Inl KeyError"
    by (simp add: geocode_city_def env_offline_def)
  from geocode_miss_regresses[where S = "[7 \<mapsto> ?sess]" and c = 7 and sess = ?sess
      and ev = env_offline and t = "''why?''", OF h1 h2 h3 h4 h5 h6]
  show ?thesis by (simp add: sample_data_def)
qed

text \<open>
  C9: in state \<open>ASK_FREEFORM\<close>, when the coordinates were found and the chart or its
  rendering fails, exactly one message, carrying the error, is sent; text generation is
  not called; nothing is raised; the session stays in \<open>ASK_FREEFORM\<close> and differs from
  before only in the stored latitude and longitude. A chart that is returned has all ten
  bodies: there is no partial chart.
\<close>

theorem chart_failure_keeps_state:
  assumes "S c = Some sess" and "state sess = ASK_FREEFORM" and "OPENAI_API_KEY ev \<noteq> []"
    and "strip t \<noteq> []" and "\<not> is_command (strip t)"
    and "geocode_city ev (city (data sess)) (country (data sess)) = Inr (Some (la, lo))"
    and "local_datetime (data sess) = Inr dtl"
    and "chart_text ev la lo dtl (tz (data sess)) = Inl e"
  shows "webhook ev S (TextMessage c (Some t)) =
           \<lparr>sessions_out = S(c \<mapsto> sess\<lparr>data := (data sess)\<lparr>lat := Some la, lon := Some lo\<rparr>\<rparr>),
            effects = [CallGeocode (city (data sess)) (country (data sess)), CallComputeChart,
                       TgSendMessage c (MsgChartError e)],
            raised = None\<rparr>
         \<and> map_option state (sessions_out (webhook ev S (TextMessage c (Some t))) c)
             = Some ASK_FREEFORM
         \<and> (case compute_chart ev la lo dtl (tz (data sess)) of
               Inl x \<Rightarrow> True
             | Inr ch \<Rightarrow> dom (positions ch) = set body_names)"
proof -
  have "ask_freeform ev c sess (strip t) =
          (sess\<lparr>data := (data sess)\<lparr>lat := Some la, lon := Some lo\<rparr>\<rparr>,
           [CallGeocode (city (data sess)) (country (data sess)), CallComputeChart,
            TgSendMessage c (MsgChartError e)],
           None)"
    using assms(3,6,7,8) by (simp add: ask_freeform_def Let_def local_datetime_coords)
  then show ?thesis
    using assms(1,2,4,5) compute_chart_complete[of ev la lo dtl "tz (data sess)"]
    by (simp add: webhook_text on_text_def)
qed

lemma sample_local_datetime:
  "local_datetime sample_data =
     Inr \<lparr>dt_year = 1990, dt_month = 1, dt_day = 1, dt_hour = 12, dt_minute = 0, dt_second = 0\<rparr>"
  by (simp add: local_datetime_def sample_data_def py_int_def strip_def is_space_def
      is_digit_def dec_val_def digit_val_def valid_date_def days_in_month_def)

text \<open>A timezone identifier that passes the validator and names no zone.\<close>

theorem chart_failure_keeps_state_witness:
  "webhook env_london [7 \<mapsto> \<lparr>state = ASK_FREEFORM, data = sample_data\<rparr>]
       (TextMessage 7 (Some ''why?'')) =
     \<lparr>sessions_out =
        [7 \<mapsto> \<lparr>state = ASK_FREEFORM,
                data = sample_data\<lparr>lat := Some (103 / 2), lon := Some (- 3 / 25)\<rparr>\<rparr>],
      effects = [CallGeocode (Some ''London'') (Some ''UK''), CallComputeChart,
                 TgSendMessage 7 (MsgChartError KeyError)],
      raised = None\<rparr>"
proof -
  let ?sess = "\<lparr>state = ASK_FREEFORM, data = sample_data\<rparr>"
  have h1: "[7 \<mapsto> ?sess] (7::int) = Some ?sess" by simp
  have h2: "state ?sess = ASK_FREEFORM" by simp
  have h3: "OPENAI_API_KEY env_london \<noteq> []" by (simp add: env_london_def)
  have h4: "strip ''why?'' \<noteq> []" by (simp add: strip_def is_space_def)
  have h5: "\<not> is_command (strip ''why?'')"
    by (simp add: strip_def is_space_def is_command_def lower_def lower_char_def)
  have h6: "geocode_city env_london (city (data ?sess)) (country (data ?sess))
              = Inr (Some (103 / 2, - 3 / 25))"
    by (simp add: geocode_city_def env_london_def)
  have h7: "local_datetime (data ?sess) =
     Inr \<lparr>dt_year = 1990, dt_month = 1, dt_day = 1, dt_hour = 12, dt_minute = 0, dt_second = 0\<rparr>"
    by (simp add: sample_local_datetime)
  have h8: "chart_text env_london (103 / 2) (- 3 / 25)
              \<lparr>dt_year = 1990, dt_month = 1, dt_day = 1, dt_hour = 12, dt_minute = 0,
                dt_second = 0\<rparr> (tz (data ?sess)) = Inl KeyError"
    by (simp add: chart_text_def compute_chart_def env_london_def sample_data_def)
  from chart_failure_keeps_state[where S = "[7 \<mapsto> ?sess]" and c = 7 and sess = ?sess
      and ev = env_london and t = "''why?''", OF h1 h2 h3 h4 h5 h6 h7 h8]
  show ?thesis by (simp add: sample_data_def)
qed

section \<open>Properties of rounding and of sign placement\<close>

lemma pow2_powi: "pow2 e = 2 powi e"
  by (simp add: pow2_def power_int_def inverse_eq_divide power_one_over)

lemma pow2_pos: "0 < pow2 e"
  by (simp add: pow2_powi)

lemma pow2_nat: "0 \<le> e \<Longrightarrow> pow2 e = 2 ^ nat e"
  by (simp add: pow2_def)

lemma ilog2_lower:
  assumes "0 < x"
  shows "pow2 (ilog2 x) \<le> x"
proof (cases "1 \<le> x")
  case True
  then have fp: "0 < \<lfloor>x\<rfloor>" by simp
  from bitlen_bounds[OF fp] have b: "2 ^ nat (bitlen \<lfloor>x\<rfloor> - 1) \<le> \<lfloor>x\<rfloor>" by simp
  have "1 \<le> bitlen \<lfloor>x\<rfloor>"
    using fp bitlen_eq_zero_iff[of "\<lfloor>x\<rfloor>"] bitlen_nonneg[of "\<lfloor>x\<rfloor>"] by linarith
  then have "pow2 (ilog2 x) = 2 ^ nat (bitlen \<lfloor>x\<rfloor> - 1)"
    using True by (simp add: ilog2_def pow2_nat)
  also have "\<dots> = of_int (2 ^ nat (bitlen \<lfloor>x\<rfloor> - 1))" by simp
  also have "\<dots> \<le> of_int \<lfloor>x\<rfloor>" using b by (simp only: of_int_le_iff)
  also have "\<dots> \<le> x" by simp
  finally show ?thesis .
next
  case False
  define n where "n = \<lceil>1 / x\<rceil>"
  define b where "b = bitlen (n - 1)"
  from False assms have "1 < 1 / x" by simp
  then have n2: "2 \<le> n" unfolding n_def by linarith
  then have np: "0 < n - 1" by simp
  from bitlen_bounds[OF np] have "n - 1 < 2 ^ nat b" unfolding b_def by simp
  then have "n \<le> 2 ^ nat b" by simp
  then have "(of_int n :: rat) \<le> of_int (2 ^ nat b)" by (simp only: of_int_le_iff)
  then have nb: "(of_int n :: rat) \<le> 2 ^ nat b" by simp
  have "1 / x \<le> of_int n" unfolding n_def by simp
  with nb have "1 / x \<le> 2 ^ nat b" by linarith
  then have "1 / 2 ^ nat b \<le> x"
    using assms by (simp add: field_simps)
  moreover have "1 \<le> b"
    using np bitlen_eq_zero_iff[of "n - 1"] bitlen_nonneg[of "n - 1"] unfolding b_def by linarith
  then have "pow2 (- b) = 1 / 2 ^ nat b" by (simp add: pow2_def)
  moreover have "ilog2 x = - b" using False by (simp add: ilog2_def b_def n_def)
  ultimately show ?thesis by simp
qed

lemma round_half_even_of_int: "round_half_even (of_int z) = z"
  by (simp add: round_half_even_def)

lemma round_half_even_bounds: "\<lfloor>x\<rfloor> \<le> round_half_even x \<and> round_half_even x \<le> \<lceil>x\<rceil>"
  unfolding round_half_even_def Let_def by (auto simp: ceiling_altdef)

lemma fl_0: "fl 0 = 0"
  by (simp add: fl_def)

lemma ilog2_less:
  assumes "0 < x" "x < 2 ^ n"
  shows "ilog2 x < int n"
proof (rule ccontr)
  assume "\<not> ilog2 x < int n"
  then have "int n \<le> ilog2 x" by simp
  then have "(2::rat) powi int n \<le> 2 powi ilog2 x"
    by (intro power_int_increasing) auto
  then have "2 ^ n \<le> pow2 (ilog2 x)" by (simp add: pow2_powi)
  with ilog2_lower[OF assms(1)] assms(2) show False by simp
qed


lemma fl_small:
  assumes "x \<noteq> 0" "\<bar>x\<bar> < 2 ^ 53"
  shows "\<exists>k. fl x = of_int (round_half_even (x * 2 ^ k)) / 2 ^ k"
proof -
  have "ilog2 \<bar>x\<bar> < int 53"
    using assms by (intro ilog2_less) auto
  then have e: "ilog2 \<bar>x\<bar> - 52 \<le> 0" by simp
  define k where "k = nat (- (ilog2 \<bar>x\<bar> - 52))"
  have p: "pow2 (ilog2 \<bar>x\<bar> - 52) = 1 / 2 ^ k"
  proof (cases "ilog2 \<bar>x\<bar> - 52 = 0")
    case True
    then show ?thesis by (simp add: pow2_def k_def)
  next
    case False
    with e show ?thesis by (simp add: pow2_def k_def)
  qed
  have "fl x = of_int (round_half_even (x / pow2 (ilog2 \<bar>x\<bar> - 52))) * pow2 (ilog2 \<bar>x\<bar> - 52)"
    using assms(1) by (simp add: fl_def Let_def)
  then have "fl x = of_int (round_half_even (x * 2 ^ k)) / 2 ^ k"
    unfolding p by simp
  then show ?thesis ..
qed

lemma fl_of_int:
  assumes "\<bar>n\<bar> < 2 ^ 53"
  shows "fl (of_int n) = of_int n"
proof (cases "n = 0")
  case True
  then show ?thesis by (simp add: fl_0)
next
  case False
  have "\<bar>of_int n :: rat\<bar> = of_int \<bar>n\<bar>" by simp
  also have "\<dots> < of_int (2 ^ 53)" using assms by (simp only: of_int_less_iff)
  finally have "\<bar>of_int n :: rat\<bar> < 2 ^ 53" by simp
  with False obtain k where
    k: "fl (of_int n) = of_int (round_half_even (of_int n * 2 ^ k)) / 2 ^ k"
    using fl_small[of "of_int n"] by auto
  have "(of_int n :: rat) * 2 ^ k = of_int (n * 2 ^ k)" by simp
  then have "round_half_even (of_int n * 2 ^ k) = n * 2 ^ k"
    by (simp only: round_half_even_of_int)
  with k show ?thesis by simp
qed

lemma fl_nonneg:
  assumes "0 \<le> x"
  shows "0 \<le> fl x"
proof (cases "x = 0")
  case True
  then show ?thesis by (simp add: fl_0)
next
  case False
  define e where "e = ilog2 \<bar>x\<bar> - 52"
  have "0 \<le> x / pow2 e" using assms pow2_pos[of e] by simp
  then have "0 \<le> \<lfloor>x / pow2 e\<rfloor>" by simp
  with round_half_even_bounds[of "x / pow2 e"] have "0 \<le> round_half_even (x / pow2 e)"
    by linarith
  then have "0 \<le> (of_int (round_half_even (x / pow2 e)) :: rat) * pow2 e"
    using pow2_pos[of e] by simp
  then show ?thesis using False by (simp add: fl_def Let_def e_def)
qed

lemma fl_le_of_int:
  assumes "0 < x" "x \<le> of_int N" "N < 2 ^ 53"
  shows "fl x \<le> of_int N"
proof -
  have "(of_int N :: rat) < of_int (2 ^ 53)" using assms(3) by (simp only: of_int_less_iff)
  then have "(of_int N :: rat) < 2 ^ 53" by simp
  with assms have "\<bar>x\<bar> < 2 ^ 53" by simp
  with assms(1) obtain k where
    k: "fl x = of_int (round_half_even (x * 2 ^ k)) / 2 ^ k"
    using fl_small[of x] by auto
  have "x * 2 ^ k \<le> of_int N * 2 ^ k" using assms(2) by simp
  also have "\<dots> = of_int (N * 2 ^ k)" by simp
  finally have "\<lceil>x * 2 ^ k\<rceil> \<le> N * 2 ^ k" by (simp only: ceiling_le_iff)
  with round_half_even_bounds[of "x * 2 ^ k"] have "round_half_even (x * 2 ^ k) \<le> N * 2 ^ k"
    by linarith
  then have "(of_int (round_half_even (x * 2 ^ k)) :: rat) \<le> of_int (N * 2 ^ k)"
    by (simp only: of_int_le_iff)
  then have "(of_int (round_half_even (x * 2 ^ k)) :: rat) / 2 ^ k \<le> of_int N"
    by (simp add: field_simps)
  with k show ?thesis by simp
qed

lemma fmod_30_nonneg:
  assumes "0 \<le> deg"
  shows "fmod deg 30 = deg - 30 * of_int \<lfloor>deg / 30\<rfloor>"
proof (cases "deg = 0")
  case True
  then show ?thesis by (simp add: fmod_def)
next
  case False
  with assms have "0 < deg" by simp
  then show ?thesis by (simp add: fmod_def)
qed

lemma frac_part_30: "0 \<le> x - 30 * of_int \<lfloor>x / 30\<rfloor> \<and> x - 30 * of_int \<lfloor>x / 30\<rfloor> < (30::rat)"
proof -
  have "of_int \<lfloor>x / 30\<rfloor> \<le> x / 30" "x / 30 < of_int \<lfloor>x / 30\<rfloor> + 1"
    by linarith+
  then show ?thesis by (simp add: field_simps)
qed

lemma fmod_30_neg:
  assumes "deg < 0"
  shows "- 30 < fmod deg 30 \<and> fmod deg 30 \<le> 0"
proof -
  have "fmod deg 30 = - (\<bar>deg\<bar> - 30 * of_int \<lfloor>\<bar>deg\<bar> / 30\<rfloor>)"
    using assms by (simp add: fmod_def)
  with frac_part_30[of "\<bar>deg\<bar>"] show ?thesis by simp
qed

lemma py_float_mod_30:
  "\<exists>w. py_float_mod deg 30 = Inr w \<and> 0 \<le> w \<and> w \<le> 30"
proof (cases "0 \<le> deg")
  case True
  with fmod_30_nonneg[OF True] frac_part_30[of deg] show ?thesis
    by (simp add: py_float_mod_def Let_def)
next
  case False
  then have neg: "deg < 0" by simp
  note r = fmod_30_neg[OF neg]
  show ?thesis
  proof (cases "fmod deg 30 = 0")
    case True
    then show ?thesis by (simp add: py_float_mod_def Let_def)
  next
    case False
    with r have pos: "0 < fmod deg 30 + 30" and le: "fmod deg 30 + 30 \<le> of_int 30"
      by simp_all
    have "fl (fmod deg 30 + 30) \<le> of_int 30"
      by (rule fl_le_of_int[OF pos le]) simp
    moreover have "0 \<le> fl (fmod deg 30 + 30)"
      using pos by (intro fl_nonneg) simp
    ultimately show ?thesis
      using False r by (simp add: py_float_mod_def Let_def)
  qed
qed

lemma py_float_floordiv_30: "\<exists>q. py_float_floordiv deg 30 = Inr q"
  by (simp add: py_float_floordiv_def Let_def)

lemma list_get_signs: "list_get signs (i mod 12) = Inr (signs ! nat (i mod 12))"
proof -
  have "0 \<le> i mod 12" "i mod 12 < 12" by simp_all
  moreover have "length signs = 12" by (simp add: signs_def)
  ultimately show ?thesis by (simp add: list_get_def)
qed

lemma deg_to_sign_total:
  "\<exists>s w. deg_to_sign deg = Inr (s, w) \<and> s \<in> set signs \<and> 0 \<le> w \<and> w \<le> 30"
proof -
  obtain q where q: "py_float_floordiv deg 30 = Inr q"
    using py_float_floordiv_30 by blast
  obtain w where w: "py_float_mod deg 30 = Inr w" "0 \<le> w" "w \<le> 30"
    using py_float_mod_30 by blast
  have "nat (int_of_float q mod 12) < length signs"
    by (simp add: signs_def nat_less_iff)
  then have "signs ! nat (int_of_float q mod 12) \<in> set signs"
    by (rule nth_mem)
  moreover have "deg_to_sign deg = Inr (signs ! nat (int_of_float q mod 12), w)"
    by (simp add: deg_to_sign_def q w list_get_signs Let_def)
  ultimately show ?thesis using w by blast
qed


lemma deg_to_sign_exact:
  assumes "0 \<le> deg" "deg < 2 ^ 53"
  shows "deg_to_sign deg = Inr (spec_sign_placement deg)"
proof -
  define k where "k = \<lfloor>deg / 30\<rfloor>"
  have md: "fmod deg 30 = deg - 30 * of_int k"
    unfolding k_def by (rule fmod_30_nonneg[OF assms(1)])
  have r: "0 \<le> deg - 30 * of_int k" "deg - 30 * of_int k < 30"
    using frac_part_30[of deg] unfolding k_def by simp_all
  have k0: "0 \<le> k" unfolding k_def using assms(1) by simp
  have "(of_int (30 * k) :: rat) \<le> deg" using r(1) by simp
  also have "\<dots> < of_int (2 ^ 53)" using assms(2) by simp
  finally have "30 * k < 2 ^ 53" by (simp only: of_int_less_iff)
  with k0 have b30: "\<bar>30 * k\<bar> < 2 ^ 53" and bk: "\<bar>k\<bar> < 2 ^ 53" by simp_all
  have "deg - fmod deg 30 = of_int (30 * k)" by (simp add: md)
  then have s1: "fl (deg - fmod deg 30) = of_int (30 * k)"
    using fl_of_int[OF b30] by simp
  have "(of_int (30 * k) :: rat) / 30 = of_int k" by simp
  then have s2: "fl (fl (deg - fmod deg 30) / 30) = of_int k"
    using fl_of_int[OF bk] by (simp only: s1)
  have mdn: "\<not> fmod deg 30 < 0" using r(1) by (simp add: md)
  have q: "py_float_floordiv deg 30 = Inr (of_int k)"
    using mdn by (simp add: py_float_floordiv_def Let_def s2 fl_0)
  have "py_float_mod deg 30 = Inr (fmod deg 30)"
    using mdn by (simp add: py_float_mod_def Let_def)
  then have w: "py_float_mod deg 30 = Inr (deg - 30 * of_int k)"
    by (simp only: md)
  have i: "int_of_float (of_int k) = k"
    using k0 by (simp add: int_of_float_def)
  have "deg_to_sign deg = Inr (signs ! nat (k mod 12), deg - 30 * of_int k)"
    by (simp add: deg_to_sign_def q w i list_get_signs Let_def)
  then show ?thesis
    by (simp add: spec_sign_placement_def k_def)
qed

lemma spec_sign_placement_period:
  "spec_sign_placement (x + 360) = spec_sign_placement x"
proof -
  have "(x + 360) / 30 = x / 30 + of_int 12" by simp
  then have "\<lfloor>(x + 360) / 30\<rfloor> = \<lfloor>x / 30\<rfloor> + 12"
    by (simp only: floor_add_int[symmetric])
  then show ?thesis by (simp add: spec_sign_placement_def algebra_simps)
qed

lemma ilog2_upper:
  assumes "0 < x"
  shows "x < pow2 (ilog2 x + 1)"
proof (cases "1 \<le> x")
  case True
  then have fp: "0 < \<lfloor>x\<rfloor>" by simp
  define b where "b = bitlen \<lfloor>x\<rfloor>"
  from bitlen_bounds[OF fp] have "\<lfloor>x\<rfloor> < 2 ^ nat b" unfolding b_def by simp
  then have "\<lfloor>x\<rfloor> + 1 \<le> 2 ^ nat b" by simp
  then have "(of_int (\<lfloor>x\<rfloor> + 1) :: rat) \<le> of_int (2 ^ nat b)" by (simp only: of_int_le_iff)
  then have le: "(of_int \<lfloor>x\<rfloor> :: rat) + 1 \<le> 2 ^ nat b" by simp
  have "x < of_int \<lfloor>x\<rfloor> + 1" by linarith
  with le have "x < 2 ^ nat b" by linarith
  moreover have "0 \<le> b" unfolding b_def by (rule bitlen_nonneg)
  then have "pow2 (ilog2 x + 1) = 2 ^ nat b"
    using True by (simp add: ilog2_def pow2_nat b_def)
  ultimately show ?thesis by simp
next
  case False
  define n where "n = \<lceil>1 / x\<rceil>"
  define b where "b = bitlen (n - 1)"
  from False assms have "1 < 1 / x" by simp
  then have n2: "2 \<le> n" unfolding n_def by linarith
  then have np: "0 < n - 1" by simp
  have b1: "1 \<le> b"
    using np bitlen_eq_zero_iff[of "n - 1"] bitlen_nonneg[of "n - 1"] unfolding b_def by linarith
  from bitlen_bounds[OF np] have "2 ^ nat (b - 1) \<le> n - 1" unfolding b_def by simp
  then have "(of_int (2 ^ nat (b - 1)) :: rat) \<le> of_int (n - 1)" by (simp only: of_int_le_iff)
  then have le: "(2 ^ nat (b - 1) :: rat) \<le> of_int n - 1" by simp
  have "of_int n - 1 < 1 / x" unfolding n_def by linarith
  with le have "(2 ^ nat (b - 1) :: rat) < 1 / x" by linarith
  then have "x * 2 ^ nat (b - 1) < 1"
    using assms by (simp add: field_simps)
  then have lt: "x < 1 / 2 ^ nat (b - 1)"
    by (simp add: field_simps)
  have "pow2 (1 - b) = 1 / 2 ^ nat (b - 1)"
  proof (cases "b = 1")
    case True
    then show ?thesis by (simp add: pow2_def)
  next
    case False
    with b1 have "1 - b < 0" by simp
    then show ?thesis by (simp add: pow2_def)
  qed
  moreover have "ilog2 x = - b" using False by (simp add: ilog2_def b_def n_def)
  ultimately show ?thesis using lt by simp
qed

lemma ilog2_less_int:
  assumes "0 < x" "x < pow2 n"
  shows "ilog2 x < n"
proof (rule ccontr)
  assume "\<not> ilog2 x < n"
  then have "n \<le> ilog2 x" by simp
  then have "(2::rat) powi n \<le> 2 powi ilog2 x"
    by (intro power_int_increasing) auto
  then have "pow2 n \<le> pow2 (ilog2 x)" by (simp add: pow2_powi)
  with ilog2_lower[OF assms(1)] assms(2) show False by simp
qed

lemma pow2_neg_nat: "pow2 (- int n) = 1 / 2 ^ n"
  by (simp add: pow2_powi power_int_minus inverse_eq_divide)

text \<open>A value with at most 53 significant bits is not changed by rounding.\<close>

lemma fl_dyadic:
  assumes "\<bar>m\<bar> < 2 ^ 53"
  shows "fl (of_int m / 2 ^ k) = of_int m / 2 ^ k"
proof (cases "m = 0")
  case True
  then show ?thesis by (simp add: fl_0)
next
  case False
  define x :: rat where "x = of_int m / 2 ^ k"
  have xn: "x \<noteq> 0" using False by (simp add: x_def)
  have "\<bar>x\<bar> = of_int \<bar>m\<bar> / 2 ^ k" by (simp add: x_def)
  also have "\<dots> < of_int (2 ^ 53) / 2 ^ k"
    using assms by (intro divide_strict_right_mono) (simp_all only: of_int_less_iff zero_less_power zero_less_numeral)
  also have "\<dots> = pow2 (53 - int k)"
    by (simp add: pow2_powi power_int_diff)
  finally have "ilog2 \<bar>x\<bar> < 53 - int k"
    using xn by (intro ilog2_less_int) auto
  then have nn: "0 \<le> - (ilog2 \<bar>x\<bar> - 52) - int k" by linarith
  define j where "j = nat (- (ilog2 \<bar>x\<bar> - 52) - int k)"
  have j: "ilog2 \<bar>x\<bar> - 52 = - int (k + j)"
    using nn by (simp add: j_def)
  have p: "pow2 (ilog2 \<bar>x\<bar> - 52) = 1 / 2 ^ (k + j)"
    unfolding j by (rule pow2_neg_nat)
  have "x / pow2 (ilog2 \<bar>x\<bar> - 52) = of_int (m * 2 ^ j)"
    unfolding p by (simp add: x_def power_add)
  then have "round_half_even (x / pow2 (ilog2 \<bar>x\<bar> - 52)) = m * 2 ^ j"
    by (simp only: round_half_even_of_int)
  then have "fl x = of_int (m * 2 ^ j) * (1 / 2 ^ (k + j))"
    using xn by (simp add: fl_def Let_def p)
  also have "\<dots> = x" by (simp add: x_def power_add)
  finally show ?thesis by (simp add: x_def)
qed

text \<open>A value below \<open>2^53\<close> that rounding does not change has at most 53 significant bits.\<close>

lemma fl_fixed_dyadic:
  assumes "0 < y" "y < 2 ^ 53" "fl y = y"
  shows "\<exists>m k. y = of_int m / 2 ^ k \<and> 0 < m \<and> m < 2 ^ 53"
proof -
  have "ilog2 y < int 53"
    using assms by (intro ilog2_less) auto
  then have e: "0 \<le> 52 - ilog2 y" by simp
  define k where "k = nat (52 - ilog2 y)"
  have ay: "\<bar>y\<bar> = y" using assms(1) by simp
  have p: "pow2 (ilog2 y - 52) = 1 / 2 ^ k"
    using e by (cases "ilog2 y - 52 = 0") (simp_all add: pow2_def k_def)
  define m where "m = round_half_even (y * 2 ^ k)"
  have "fl y = of_int m / 2 ^ k"
    using assms(1) by (simp add: fl_def Let_def ay p m_def)
  with assms(3) have y: "y = of_int m / 2 ^ k" by simp
  then have ym: "y * 2 ^ k = of_int m" by simp
  have k2: "(2::rat) ^ k = pow2 (52 - ilog2 y)"
    using e by (simp add: pow2_def k_def)
  have "y < pow2 (ilog2 y + 1)" by (rule ilog2_upper[OF assms(1)])
  then have "y * 2 ^ k < pow2 (ilog2 y + 1) * 2 ^ k" by simp
  also have "\<dots> = pow2 (ilog2 y + 1) * pow2 (52 - ilog2 y)" by (simp only: k2)
  also have "\<dots> = 2 ^ 53"
    by (simp add: pow2_powi flip: power_int_add)
  finally have "y * 2 ^ k < 2 ^ 53" .
  then have "(of_int m :: rat) < 2 ^ 53" by (simp only: ym)
  then have "(of_int m :: rat) < of_int (2 ^ 53)" by simp
  then have "m < 2 ^ 53" by (simp only: of_int_less_iff)
  moreover have "0 < m"
  proof -
    have "0 < y * 2 ^ k" using assms(1) by simp
    then have "(0::rat) < of_int m" using ym by simp
    then show ?thesis by simp
  qed
  ultimately show ?thesis using y by blast
qed


text \<open>The remainder by 30 of a double is a double: \<open>fmod\<close> is exact.\<close>

lemma remainder_representable:
  assumes "0 \<le> y" "y < 2 ^ 53" "fl y = y"
  shows "fl (y - 30 * of_int \<lfloor>y / 30\<rfloor>) = y - 30 * of_int \<lfloor>y / 30\<rfloor>"
proof (cases "y = 0")
  case True
  then show ?thesis by (simp add: fl_0)
next
  case False
  with assms(1) have "0 < y" by simp
  from fl_fixed_dyadic[OF this assms(2,3)] obtain m k where
    y: "y = of_int m / 2 ^ k" and m: "0 < m" "m < 2 ^ 53" by blast
  define q where "q = \<lfloor>y / 30\<rfloor>"
  define R where "R = m - 30 * q * 2 ^ k"
  have q0: "0 \<le> q" unfolding q_def using assms(1) by simp
  have r: "y - 30 * of_int q = of_int R / 2 ^ k"
    by (simp add: y R_def field_simps)
  have "0 \<le> y - 30 * of_int q" using frac_part_30[of y] by (simp add: q_def)
  then have "0 \<le> (of_int R :: rat) / 2 ^ k" by (simp only: r)
  then have "(0::rat) \<le> of_int R / 2 ^ k * 2 ^ k"
    by (intro mult_nonneg_nonneg) simp_all
  then have "(0::rat) \<le> of_int R" by simp
  then have R0: "0 \<le> R" by simp
  have "0 \<le> 30 * q * 2 ^ k" using q0 by simp
  then have "R \<le> m" by (simp add: R_def)
  with R0 m(2) have "\<bar>R\<bar> < 2 ^ 53" by simp
  from fl_dyadic[OF this, of k] show ?thesis
    unfolding q_def[symmetric] by (simp only: r)
qed

lemma fmod_30_neg_eq:
  assumes "deg < 0"
  shows "fmod deg 30 = deg - 30 * of_int \<lceil>deg / 30\<rceil>"
proof -
  have "\<lfloor>- deg / 30\<rfloor> = - \<lceil>deg / 30\<rceil>"
    using floor_minus[of "deg / 30"] by simp
  then show ?thesis using assms by (simp add: fmod_def)
qed

lemma int_of_float_of_int: "int_of_float (of_int z) = z"
  by (simp add: int_of_float_def)

lemma deg_to_sign_exact_neg:
  assumes "- (2 ^ 53) < deg" "deg < 0"
  shows "deg_to_sign deg =
           Inr (fst (spec_sign_placement deg), fl (snd (spec_sign_placement deg)))"
proof -
  define K where "K = \<lfloor>deg / 30\<rfloor>"
  define C where "C = \<lceil>deg / 30\<rceil>"
  define r where "r = deg - 30 * of_int K"
  have md: "fmod deg 30 = deg - 30 * of_int C"
    unfolding C_def by (rule fmod_30_neg_eq[OF assms(2)])
  have rr: "0 \<le> r" "r < 30"
    using frac_part_30[of deg] by (simp_all add: r_def K_def)
  have Cle: "C \<le> 0" unfolding C_def using assms(2) by (simp add: ceiling_le_iff)
  have "deg / 30 \<le> of_int C" unfolding C_def by simp
  then have lo: "deg \<le> of_int (30 * C)" by simp
  have "(of_int (- (2 ^ 53)) :: rat) < of_int (30 * C)"
    using assms(1) lo by simp
  then have "- (2 ^ 53) < 30 * C" by (simp only: of_int_less_iff)
  with Cle have b30: "\<bar>30 * C\<bar> < 2 ^ 53" and bC: "\<bar>C\<bar> < 2 ^ 53" by simp_all
  have KC: "K = C \<or> K = C - 1"
    unfolding K_def C_def by (simp add: ceiling_altdef)
  with bC Cle b30 have bK: "\<bar>K\<bar> < 2 ^ 53" by auto
  have "deg - fmod deg 30 = of_int (30 * C)" by (simp add: md)
  then have s1: "fl (deg - fmod deg 30) = of_int (30 * C)"
    using fl_of_int[OF b30] by simp
  have "(of_int (30 * C) :: rat) / 30 = of_int C" by simp
  then have s2: "fl (fl (deg - fmod deg 30) / 30) = of_int C"
    using fl_of_int[OF bC] by (simp only: s1)
  have mdle: "fmod deg 30 \<le> 0" using fmod_30_neg[OF assms(2)] by simp
  show ?thesis
  proof (cases "fmod deg 30 = 0")
    case True
    then have "deg = 30 * of_int C" by (simp add: md)
    then have "deg / 30 = of_int C" by simp
    then have "K = C" unfolding K_def by simp
    with True have r0: "r = 0" by (simp add: r_def md)
    have s2': "fl (fl deg / 30) = of_int K"
      using s2 True \<open>K = C\<close> by simp
    have q: "py_float_floordiv deg 30 = Inr (of_int K)"
      using True by (simp add: py_float_floordiv_def Let_def s2' fl_0)
    have w: "py_float_mod deg 30 = Inr (fl r)"
      using True by (simp add: py_float_mod_def Let_def r0 fl_0)
    have "deg_to_sign deg = Inr (signs ! nat (K mod 12), fl r)"
      by (simp add: deg_to_sign_def q w int_of_float_of_int list_get_signs Let_def)
    then show ?thesis by (simp add: spec_sign_placement_def K_def r_def)
  next
    case False
    with mdle have neg: "fmod deg 30 < 0" by simp
    have "deg \<noteq> 30 * of_int C" using False by (simp add: md)
    then have "deg / 30 \<noteq> of_int C" by (simp add: field_simps)
    then have "K = C - 1"
      unfolding K_def C_def by (simp add: ceiling_altdef split: if_splits)
    then have CK: "(of_int C :: rat) - 1 = of_int K" by simp
    have s3: "fl (of_int C - 1) = (of_int K :: rat)"
      using fl_of_int[OF bK] by (simp only: CK)
    have q: "py_float_floordiv deg 30 = Inr (of_int K)"
      using False neg by (simp add: py_float_floordiv_def Let_def s2 s3 fl_0)
    have "fmod deg 30 + 30 = r"
      using \<open>K = C - 1\<close> by (simp add: md r_def)
    then have w: "py_float_mod deg 30 = Inr (fl r)"
      using False neg by (simp add: py_float_mod_def Let_def)
    have "deg_to_sign deg = Inr (signs ! nat (K mod 12), fl r)"
      by (simp add: deg_to_sign_def q w int_of_float_of_int list_get_signs Let_def)
    then show ?thesis by (simp add: spec_sign_placement_def K_def r_def)
  qed
qed

lemma deg_to_sign_exact_all:
  assumes "\<bar>deg\<bar> < 2 ^ 53"
  shows "deg_to_sign deg =
           Inr (fst (spec_sign_placement deg),
                if 0 \<le> deg then snd (spec_sign_placement deg)
                else fl (snd (spec_sign_placement deg)))"
proof (cases "0 \<le> deg")
  case True
  with assms have "deg < 2 ^ 53" by simp
  from deg_to_sign_exact[OF True this] True show ?thesis by simp
next
  case False
  with assms have "- (2 ^ 53) < deg" "deg < 0" by simp_all
  from deg_to_sign_exact_neg[OF this] False show ?thesis by simp
qed

lemma deg_to_sign_periodic:
  assumes "- (2 ^ 53) < deg" "deg + 360 < 2 ^ 53" "fl (deg + 360) = deg + 360"
  shows "deg_to_sign (fl (deg + 360)) = deg_to_sign deg"
proof -
  have b1: "\<bar>deg\<bar> < 2 ^ 53" and b2: "\<bar>deg + 360\<bar> < 2 ^ 53"
    using assms(1,2) by simp_all
  note e1 = deg_to_sign_exact_all[OF b1]
  note e2 = deg_to_sign_exact_all[OF b2]
  note sp = spec_sign_placement_period[of deg]
  show ?thesis
  proof (cases "deg < 0 \<and> 0 \<le> deg + 360")
    case True
    have "snd (spec_sign_placement (deg + 360))
        = deg + 360 - 30 * of_int \<lfloor>(deg + 360) / 30\<rfloor>"
      by (simp add: spec_sign_placement_def)
    with remainder_representable[of "deg + 360"] True assms(2,3)
    have "fl (snd (spec_sign_placement (deg + 360))) = snd (spec_sign_placement (deg + 360))"
      by simp
    then have "fl (snd (spec_sign_placement deg)) = snd (spec_sign_placement deg)"
      by (simp only: sp)
    with e1 e2 True show ?thesis by (simp add: assms(3) sp)
  next
    case False
    then have "(0 \<le> deg \<and> 0 \<le> deg + 360) \<or> (deg < 0 \<and> deg + 360 < 0)" by auto
    with e1 e2 show ?thesis by (auto simp: assms(3) sp)
  qed
qed


text \<open>
  C3, as stated, fails in floating point. Adding 360 to the largest double below 30
  rounds to 390, so the placement moves from the end of Aries to the start of Taurus;
  a tiny negative longitude gets a remainder rounded up to 30 itself; and for a
  longitude above \<open>2^53\<close> the quotient is rounded, so the sign is not the one at
  index \<open>floor(x / 30) mod 12\<close>.
\<close>

theorem deg_to_sign_rounding_counterexample:
  "deg_to_sign (8444249301319679 / 281474976710656) =
     Inr (''Aries'', 8444249301319679 / 281474976710656)
   \<and> deg_to_sign (fl (8444249301319679 / 281474976710656 + 360)) = Inr (''Taurus'', 0)
   \<and> deg_to_sign (- 1 / 2 ^ 70) = Inr (''Pisces'', 30)
   \<and> deg_to_sign 104067444766231088 = Inr (''Pisces'', 8)
   \<and> fst (spec_sign_placement 104067444766231088) = ''Aries''"
  by code_simp

text \<open>
  C3, amended: sign placement is total: for every finite longitude it returns one of
  the twelve signs and a remainder in \<open>[0, 30]\<close>. For every longitude \<open>x\<close> of
  magnitude below \<open>2^53\<close>, negative or not, the sign is exactly the one at index
  \<open>floor(x / 30) mod 12\<close>; the remainder is exactly \<open>x mod 30\<close>, in \<open>[0, 30)\<close>, when
  \<open>x\<close> is not negative, and \<open>x mod 30\<close> rounded once to a double (so that it can
  reach 30) when \<open>x\<close> is negative. The placement of \<open>x + 360\<close> equals that of \<open>x\<close>
  whenever both are of magnitude below \<open>2^53\<close> and the sum \<open>x + 360\<close> is computed
  without rounding.
\<close>

theorem deg_to_sign_placement:
  "(\<exists>s w. deg_to_sign deg = Inr (s, w) \<and> s \<in> set signs \<and> 0 \<le> w \<and> w \<le> 30)
   \<and> (\<bar>deg\<bar> < 2 ^ 53 \<longrightarrow>
        deg_to_sign deg =
          Inr (fst (spec_sign_placement deg),
               if 0 \<le> deg then snd (spec_sign_placement deg)
               else fl (snd (spec_sign_placement deg)))
        \<and> 0 \<le> snd (spec_sign_placement deg) \<and> snd (spec_sign_placement deg) < 30)
   \<and> (- (2 ^ 53) < deg \<and> deg + 360 < 2 ^ 53 \<and> fl (deg + 360) = deg + 360 \<longrightarrow>
        deg_to_sign (fl (deg + 360)) = deg_to_sign deg)"
proof (intro conjI impI)
  show "\<exists>s w. deg_to_sign deg = Inr (s, w) \<and> s \<in> set signs \<and> 0 \<le> w \<and> w \<le> 30"
    by (rule deg_to_sign_total)
next
  assume "\<bar>deg\<bar> < 2 ^ 53"
  then show "deg_to_sign deg =
      Inr (fst (spec_sign_placement deg),
           if 0 \<le> deg then snd (spec_sign_placement deg)
           else fl (snd (spec_sign_placement deg)))"
    by (rule deg_to_sign_exact_all)
next
  show "0 \<le> snd (spec_sign_placement deg)"
    using frac_part_30[of deg] by (simp add: spec_sign_placement_def)
next
  show "snd (spec_sign_placement deg) < 30"
    using frac_part_30[of deg] by (simp add: spec_sign_placement_def)
next
  assume "- (2 ^ 53) < deg \<and> deg + 360 < 2 ^ 53 \<and> fl (deg + 360) = deg + 360"
  then show "deg_to_sign (fl (deg + 360)) = deg_to_sign deg"
    using deg_to_sign_periodic by blast
qed

text \<open>A negative longitude, ten degrees before the start of Aries.\<close>

theorem deg_to_sign_placement_witness:
  "\<bar>- 10 :: rat\<bar> < 2 ^ 53 \<and> fl (- 10 + 360) = - 10 + 360
   \<and> deg_to_sign (- 10) = Inr (''Pisces'', 20)
   \<and> deg_to_sign (fl (- 10 + 360)) = deg_to_sign (- 10)"
proof -
  have h1: "\<bar>- 10 :: rat\<bar> < 2 ^ 53" by simp
  have h2: "- (2 ^ 53) < (- 10 :: rat) \<and> (- 10 :: rat) + 360 < 2 ^ 53
      \<and> fl (- 10 + 360) = - 10 + 360"
    by code_simp
  have sp: "fst (spec_sign_placement (- 10)) = ''Pisces''"
    "fl (snd (spec_sign_placement (- 10))) = 20"
    by code_simp+
  from deg_to_sign_placement[of "- 10"] h1 h2
  have a: "deg_to_sign (- 10) =
      Inr (fst (spec_sign_placement (- 10)), fl (snd (spec_sign_placement (- 10))))"
    and b: "deg_to_sign (fl (- 10 + 360)) = deg_to_sign (- 10)"
    by simp_all
  from a have "deg_to_sign (- 10) = Inr (''Pisces'', 20)" by (simp only: sp)
  with h1 h2 b show ?thesis by blast
qed

section \<open>Properties of the rendering\<close>

lemma is_digit_digit_char: "is_digit (digit_char n)"
proof -
  have "(48 + n mod 10) mod 256 = 48 + n mod 10"
    by (rule mod_less) (simp add: less_le_trans[OF add_strict_left_mono[OF pos_mod_bound]])
  then show ?thesis by (simp add: is_digit_def digit_char_def)
qed

lemma dec_digits: "list_all is_digit (dec n) \<and> dec n \<noteq> []"
proof (induction n rule: dec.induct)
  case (1 n)
  show ?case
  proof (cases "n < 10")
    case True
    then show ?thesis by (simp add: dec.simps[of n] is_digit_digit_char)
  next
    case False
    with 1 show ?thesis by (simp add: dec.simps[of n] is_digit_digit_char)
  qed
qed

lemma num1_ok_fmt1:
  assumes "0 \<le> w"
  shows "num1_ok (fmt1 w)"
  using assms dec_digits[of "nat (round_half_even (\<bar>w\<bar> * 10)) div 10"]
  by (simp add: fmt1_def num1_ok_def Let_def is_digit_digit_char)

lemma digit_not_newline: "is_digit c \<Longrightarrow> newline \<noteq> c"
  by (auto simp: is_digit_def newline_def)

lemma fmt1_no_newline:
  assumes "0 \<le> w"
  shows "newline \<notin> set (fmt1 w)"
proof -
  have "newline \<notin> set (dec k)" for k
    using dec_digits[of k] digit_not_newline by (auto simp: list_all_iff)
  moreover have "newline \<noteq> digit_char k" for k
    using is_digit_digit_char[of k] digit_not_newline by blast
  ultimately show ?thesis
    using assms by (simp add: fmt1_def Let_def newline_def)
qed


lemma split_on_no_sep: "sep \<notin> set a \<Longrightarrow> split_on sep a = [a]"
  by (induction a) auto

lemma split_on_append:
  "sep \<notin> set a \<Longrightarrow> split_on sep (a @ sep # rest) = a # split_on sep rest"
  by (induction a) auto

lemma split_on_join_Cons:
  "sep \<notin> set p \<Longrightarrow> \<forall>l \<in> set ps. sep \<notin> set l \<Longrightarrow>
     split_on sep (join [sep] (p # ps)) = p # ps"
proof (induction ps arbitrary: p)
  case Nil
  then show ?case by (simp add: split_on_no_sep)
next
  case (Cons q ps)
  then have "split_on sep (join [sep] (q # ps)) = q # ps" by simp
  with Cons.prems(1) show ?case by (simp add: split_on_append)
qed

lemma split_on_join:
  assumes "ls \<noteq> []" "\<forall>l \<in> set ls. sep \<notin> set l"
  shows "split_on sep (join [sep] ls) = ls"
  using assms by (cases ls) (simp_all add: split_on_join_Cons)

lemma signs_no_newline: "s \<in> set signs \<Longrightarrow> newline \<notin> set s"
  by (auto simp: signs_def newline_def)

lemma names_no_newline: "k \<in> set (''Ascendant'' # body_names) \<Longrightarrow> newline \<notin> set k"
  by (auto simp: body_names_def newline_def)

lemma starts_with_append: "starts_with p (p @ r)"
  by (simp add: starts_with_def)

lemma digit_val_digit_char: "digit_val (digit_char k) = k mod 10"
proof -
  have "(48 + k mod 10) mod 256 = 48 + k mod 10"
    by (rule mod_less) (simp add: less_le_trans[OF add_strict_left_mono[OF pos_mod_bound]])
  then show ?thesis by (simp add: digit_val_def digit_char_def)
qed

lemma dec_val_snoc:
  "is_digit c \<Longrightarrow> dec_val (xs @ [c]) = 10 * dec_val xs + digit_val c"
  by (simp add: dec_val_def)

text \<open>Reading back what \<open>dec\<close> writes.\<close>

lemma dec_val_dec: "dec_val (dec n) = n"
proof (induction n rule: dec.induct)
  case (1 n)
  show ?case
  proof (cases "n < 10")
    case True
    have "dec_val [digit_char n] = digit_val (digit_char n)"
      using dec_val_snoc[OF is_digit_digit_char, of "[]" n] by (simp add: dec_val_def)
    with True show ?thesis
      by (simp add: dec.simps[of n] digit_val_digit_char)
  next
    case False
    with 1 have "dec_val (dec (n div 10)) = n div 10" by simp
    with False show ?thesis
      by (simp add: dec.simps[of n] dec_val_snoc is_digit_digit_char digit_val_digit_char)
  qed
qed

lemma digit_char_zero: "digit_char k = CHR ''0'' \<Longrightarrow> k mod 10 = 0"
proof -
  assume "digit_char k = CHR ''0''"
  then have "digit_val (digit_char k) = digit_val (CHR ''0'')" by simp
  moreover have "digit_val (CHR ''0'') = 0" by (simp add: digit_val_def)
  ultimately show ?thesis by (simp only: digit_val_digit_char)
qed

lemma dec_length_one: "n < 10 \<Longrightarrow> length (dec n) = 1"
  by (simp add: dec.simps[of n])

lemma dec_no_leading_zero: "0 < n \<Longrightarrow> hd (dec n) \<noteq> CHR ''0''"
proof (induction n rule: dec.induct)
  case (1 n)
  show ?case
  proof (cases "n < 10")
    case True
    with "1.prems" digit_char_zero[of n] show ?thesis
      by (auto simp: dec.simps[of n])
  next
    case False
    then have "0 < n div 10" by simp
    with 1 False have "hd (dec (n div 10)) \<noteq> CHR ''0''" by simp
    moreover have "dec (n div 10) \<noteq> []" using dec_digits by simp
    ultimately show ?thesis using False by (simp add: dec.simps[of n])
  qed
qed

lemma round_half_even_nearest:
  "\<bar>of_int (round_half_even x) - x\<bar> < 1 / 2
   \<or> (\<bar>of_int (round_half_even x) - x\<bar> = 1 / 2 \<and> even (round_half_even x))"
proof -
  define f where "f = \<lfloor>x\<rfloor>"
  define r where "r = x - of_int f"
  have r: "0 \<le> r" "r < 1" unfolding r_def f_def by linarith+
  have dn: "\<bar>of_int f - x\<bar> = r" using r unfolding r_def by linarith
  have up: "\<bar>of_int (f + 1) - x\<bar> = 1 - r"
  proof -
    have "\<bar>of_int f + 1 - x\<bar> = 1 - r" using r unfolding r_def by linarith
    then show ?thesis by simp
  qed
  consider "r < 1 / 2" | "1 / 2 < r" | "r = 1 / 2" "even f" | "r = 1 / 2" "odd f"
    by fastforce
  then show ?thesis
  proof cases
    case 1
    then have e: "round_half_even x = f"
      unfolding round_half_even_def Let_def f_def[symmetric] r_def[symmetric] by simp
    from 1 show ?thesis unfolding e dn by simp
  next
    case 2
    then have e: "round_half_even x = f + 1"
      unfolding round_half_even_def Let_def f_def[symmetric] r_def[symmetric] by simp
    from 2 have "1 - r < 1 / 2" by simp
    then show ?thesis unfolding e up by (rule disjI1)
  next
    case 3
    then have e: "round_half_even x = f"
      unfolding round_half_even_def Let_def f_def[symmetric] r_def[symmetric] by simp
    from 3 show ?thesis unfolding e dn by simp
  next
    case 4
    then have e: "round_half_even x = f + 1"
      unfolding round_half_even_def Let_def f_def[symmetric] r_def[symmetric] by simp
    from 4 have "1 - r = 1 / 2" "even (f + 1)" by simp_all
    then show ?thesis unfolding e up by (intro disjI2 conjI)
  qed
qed

text \<open>The numeral written by \<open>fmt1\<close> is the one the reading above asks for.\<close>

lemma one_decimal_fmt1:
  assumes "0 \<le> w"
  shows "one_decimal w (fmt1 w)"
proof -
  define z where "z = round_half_even (w * 10)"
  define n where "n = nat z"
  have "0 \<le> \<lfloor>w * 10\<rfloor>" using assms by simp
  with round_half_even_bounds[of "w * 10"] have z0: "0 \<le> z" unfolding z_def by linarith
  have f: "fmt1 w = dec (n div 10) @ ''.'' @ [digit_char (n mod 10)]"
    using assms by (simp add: fmt1_def Let_def n_def z_def)
  have dg: "list_all is_digit (dec (n div 10))" "dec (n div 10) \<noteq> []"
    using dec_digits by simp_all
  then have flt: "filter is_digit (dec (n div 10)) = dec (n div 10)"
    by (simp add: list_all_iff)
  have "dec_val (fmt1 w) = dec_val (dec (n div 10) @ [digit_char (n mod 10)])"
    unfolding f by (simp add: dec_val_def flt is_digit_def)
  also have "\<dots> = 10 * (n div 10) + n mod 10"
    by (simp add: dec_val_snoc is_digit_digit_char dec_val_dec digit_val_digit_char)
  finally have dv: "dec_val (fmt1 w) = n" by simp
  have "(of_nat n :: rat) = of_int z" using z0 by (simp add: n_def)
  moreover have "even n = even z" using z0 by (simp add: n_def even_nat_iff)
  ultimately have near: "\<bar>of_nat (dec_val (fmt1 w)) - w * 10\<bar> < 1 / 2
      \<or> (\<bar>of_nat (dec_val (fmt1 w)) - w * 10\<bar> = 1 / 2 \<and> even (dec_val (fmt1 w)))"
    using round_half_even_nearest[of "w * 10"] by (simp add: dv z_def)
  have lead: "length (fmt1 w) = 3 \<or> hd (fmt1 w) \<noteq> CHR ''0''"
  proof (cases "n div 10 < 10")
    case True
    then show ?thesis by (simp add: f dec_length_one)
  next
    case False
    then have "0 < n div 10" by simp
    from dec_no_leading_zero[OF this] dg(2) show ?thesis by (simp add: f)
  qed
  from num1_ok_fmt1[OF assms] lead near show ?thesis
    by (simp only: one_decimal_def simp_thms)
qed

lemma render_line_good:
  assumes "newline \<notin> set name"
  shows "\<exists>s w. deg_to_sign deg = Inr (s, w) \<and> good_line name deg (render_line name s w)"
proof -
  obtain s w where d: "deg_to_sign deg = Inr (s, w)" and s: "s \<in> set signs" and w: "0 \<le> w"
    using deg_to_sign_total[of deg] by blast
  define pre where "pre = name @ '': '' @ s @ '' ''"
  have rl: "render_line name s w = pre @ (fmt1 w @ [degree_sign])"
    by (simp add: render_line_def pre_def)
  have sw: "starts_with pre (render_line name s w)"
    unfolding rl by (rule starts_with_append)
  have dr: "drop (length pre) (render_line name s w) = fmt1 w @ [degree_sign]"
    unfolding rl by simp
  have la: "last (render_line name s w) = degree_sign"
    by (simp add: render_line_def)
  have pl: "placement_line name deg l =
      (starts_with pre l \<and> drop (length pre) l \<noteq> [] \<and> last l = degree_sign
       \<and> one_decimal w (butlast (drop (length pre) l)))" for l
    unfolding placement_line_def d sum.case prod.case pre_def ..
  have p: "placement_line name deg (render_line name s w)"
    unfolding pl using sw la one_decimal_fmt1[OF w] by (simp add: dr)
  have "starts_with pre (render_line name s w)
      \<and> (let r = drop (length pre) (render_line name s w) in
          r \<noteq> [] \<and> last r = degree_sign \<and> num1_ok (butlast r))"
    using sw dr num1_ok_fmt1[OF w] by (simp add: Let_def)
  then have "line_ok name (render_line name s w)"
    unfolding line_ok_def list_ex_iff pre_def using s by blast
  moreover have "newline \<notin> set (render_line name s w)"
    using assms signs_no_newline[OF s] fmt1_no_newline[OF w]
    by (simp add: render_line_def newline_def degree_sign_def)
  ultimately show ?thesis using d p by (auto simp: good_line_def)
qed

lemma body_lines_good:
  assumes "list_all (\<lambda>k. pos k \<noteq> None) ks" "\<forall>k \<in> set ks. newline \<notin> set k"
  shows "\<exists>ls. body_lines pos ks = Inr ls
           \<and> list_all2 (\<lambda>k l. good_line k (the (pos k)) l) ks ls"
  using assms
proof (induction ks)
  case Nil
  then show ?case by simp
next
  case (Cons k ks)
  then obtain v where v: "pos k = Some v" by auto
  from Cons obtain ls where ls: "body_lines pos ks = Inr ls"
    "list_all2 (\<lambda>k l. good_line k (the (pos k)) l) ks ls" by auto
  from Cons.prems(2) have "newline \<notin> set k" by simp
  from render_line_good[OF this, of v] obtain s w where
    sw: "deg_to_sign v = Inr (s, w)" "good_line k v (render_line k s w)" by blast
  have "body_lines pos (k # ks) = Inr (render_line k s w # ls)"
    by (simp add: v sw(1) ls(1))
  with ls(2) sw(2) v show ?case by simp
qed

text \<open>
  C8: for every chart whose mapping has all ten bodies, the rendering succeeds and is
  exactly eleven lines joined by newlines (splitting the text at newlines gives the
  eleven lines back): the Ascendant line first, then the ten bodies in the fixed order,
  each line being the name, a colon, the sign that \<open>deg_to_sign\<close> gives that longitude,
  and the remainder it gives, written as the nearest numeral with one decimal (a tie
  going to the even last digit, no padding), followed by the degree sign
  (\<open>placement_line\<close>, which is stated on the text of the line and not through the
  formatting function).
\<close>

theorem chart_to_text_lines:
  assumes "list_all (\<lambda>k. positions ch k \<noteq> None) body_names"
  shows "\<exists>l0 ls. chart_to_text ch = Inr (join [newline] (l0 # ls))
           \<and> split_on newline (join [newline] (l0 # ls)) = l0 # ls
           \<and> length (l0 # ls) = 11
           \<and> placement_line ''Ascendant'' (asc ch) l0 \<and> line_ok ''Ascendant'' l0
           \<and> list_all2 (\<lambda>k l. placement_line k (the (positions ch k)) l \<and> line_ok k l)
                body_names ls"
proof -
  have nn: "\<forall>k \<in> set body_names. newline \<notin> set k"
    using names_no_newline by simp
  from body_lines_good[OF assms nn] obtain ls where
    ls: "body_lines (positions ch) body_names = Inr ls"
    "list_all2 (\<lambda>k l. good_line k (the (positions ch k)) l) body_names ls" by blast
  have "newline \<notin> set ''Ascendant''" by (simp add: newline_def)
  from render_line_good[OF this, of "asc ch"] obtain s w where
    sw: "deg_to_sign (asc ch) = Inr (s, w)"
    "good_line ''Ascendant'' (asc ch) (render_line ''Ascendant'' s w)" by blast
  define l0 where "l0 = render_line ''Ascendant'' s w"
  have t: "chart_to_text ch = Inr (join [newline] (l0 # ls))"
    by (simp add: chart_to_text_def sw(1) ls(1) l0_def)
  have len: "length (l0 # ls) = 11"
    using list_all2_lengthD[OF ls(2)] by (simp add: body_names_def)
  have "\<forall>l \<in> set ls. newline \<notin> set l"
    using ls(2) by (auto simp: list_all2_conv_all_nth in_set_conv_nth good_line_def)
  then have "\<forall>l \<in> set (l0 # ls). newline \<notin> set l"
    using sw(2) by (simp add: l0_def good_line_def)
  then have sp: "split_on newline (join [newline] (l0 # ls)) = l0 # ls"
    by (intro split_on_join) auto
  have g: "list_all2 (\<lambda>k l. placement_line k (the (positions ch k)) l \<and> line_ok k l)
      body_names ls"
    using ls(2) by (rule list_all2_mono) (auto simp: good_line_def)
  from sw(2) have "placement_line ''Ascendant'' (asc ch) l0" "line_ok ''Ascendant'' l0"
    by (simp_all add: good_line_def l0_def)
  with t sp len g show ?thesis by blast
qed

text \<open>The text of a concrete chart.\<close>

lemma sample_placements:
  "map deg_to_sign [51 / 2, 2247 / 8, 5 / 4, 2401 / 8, 599 / 2, 240, 95, 285, 277, 283, 227] =
     [Inr (''Aries'', 51 / 2), Inr (''Capricorn'', 87 / 8), Inr (''Aries'', 5 / 4),
      Inr (''Aquarius'', 1 / 8), Inr (''Capricorn'', 59 / 2), Inr (''Sagittarius'', 0),
      Inr (''Cancer'', 5), Inr (''Capricorn'', 15), Inr (''Capricorn'', 7),
      Inr (''Capricorn'', 13), Inr (''Scorpio'', 17)]"
  by code_simp

lemma sample_numbers:
  "map fmt1 [51 / 2, 87 / 8, 5 / 4, 1 / 8, 59 / 2, 0, 5, 15, 7, 13, 17] =
     [''25.5'', ''10.9'', ''1.2'', ''0.1'', ''29.5'', ''0.0'', ''5.0'', ''15.0'', ''7.0'',
      ''13.0'', ''17.0'']"
  by code_simp

lemma sample_text:
  "chart_to_text sample_chart =
     Inr (join [newline]
       [''Ascendant: Aries 25.5'' @ [degree_sign], ''Sun: Capricorn 10.9'' @ [degree_sign],
        ''Moon: Aries 1.2'' @ [degree_sign], ''Mercury: Aquarius 0.1'' @ [degree_sign],
        ''Venus: Capricorn 29.5'' @ [degree_sign], ''Mars: Sagittarius 0.0'' @ [degree_sign],
        ''Jupiter: Cancer 5.0'' @ [degree_sign], ''Saturn: Capricorn 15.0'' @ [degree_sign],
        ''Uranus: Capricorn 7.0'' @ [degree_sign], ''Neptune: Capricorn 13.0'' @ [degree_sign],
        ''Pluto: Scorpio 17.0'' @ [degree_sign]])"
  using sample_placements sample_numbers
  by (simp add: chart_to_text_def sample_chart_def body_names_def render_line_def)

text \<open>The same chart has all ten bodies, and eleven lines.\<close>

theorem chart_to_text_lines_witness:
  "list_all (\<lambda>k. positions sample_chart k \<noteq> None) body_names
   \<and> (\<exists>l0 ls. chart_to_text sample_chart = Inr (join [newline] (l0 # ls))
        \<and> split_on newline (join [newline] (l0 # ls)) = l0 # ls
        \<and> length (l0 # ls) = 11)"
proof -
  have h: "list_all (\<lambda>k. positions sample_chart k \<noteq> None) body_names"
    by code_simp
  from chart_to_text_lines[OF h] h show ?thesis by blast
qed

end
